theory Spec2Isabelle
  imports Complex_Main
begin

section \<open>JavaScript numbers\<close>

text \<open>
  The dashboard computes with JavaScript numbers, which are IEEE 754 binary64 values.
  A finite number is modelled by the real number it denotes, \<open>Fin 0\<close> being the positive zero;
  the negative zero, the two infinities and NaN are constructors of their own. Every
  arithmetic operation computes the exact result and rounds it to the nearest
  binary64 value, ties to the even significand (\<open>rnd\<close>), as the hardware does.
  The exact model is needed on the repository's own data: \<open>64350 / 1000\<close> is the double
  just below 64.35, so that \<open>toFixed(1)\<close> prints 64.3 where exact decimal arithmetic
  would print 64.4.
\<close>

datatype number = Fin real | NegZero | PosInf | NegInf | NaN

fun blen :: "nat \<Rightarrow> nat" where
  "blen n = (if n = 0 then 0 else Suc (blen (n div 2)))"

declare blen.simps [simp del]

definition pow2 :: "int \<Rightarrow> real" where
  "pow2 u = (if 0 \<le> u then 2 ^ nat u else 1 / 2 ^ nat (- u))"

text \<open>\<open>ilog2 a\<close> is the binary exponent of a positive real: \<open>2 ^ e \<le> a < 2 ^ (e + 1)\<close>.\<close>

definition ilog2 :: "real \<Rightarrow> int" where
  "ilog2 a = (if 1 \<le> a then int (blen (nat \<lfloor>a\<rfloor>)) - 1
              else - int (blen (nat (\<lceil>1 / a\<rceil> - 1))))"

definition round_half_even :: "real \<Rightarrow> int" where
  "round_half_even x =
     (if x - of_int \<lfloor>x\<rfloor> < 1 / 2 then \<lfloor>x\<rfloor>
      else if 1 / 2 < x - of_int \<lfloor>x\<rfloor> then \<lfloor>x\<rfloor> + 1
      else if even \<lfloor>x\<rfloor> then \<lfloor>x\<rfloor> else \<lfloor>x\<rfloor> + 1)"

text \<open>
  Rounding to binary64: 53 significant bits, the unit in the last place \<open>2 ^ u\<close> never
  below \<open>2 ^ - 1074\<close> (subnormal numbers), overflow to an infinity from \<open>2 ^ 1024\<close> on,
  underflow to the zero of the same sign. \<open>rnd_pack r u m\<close> is the result for the
  significand \<open>m\<close> at the unit \<open>2 ^ u\<close>, with the sign of \<open>r\<close>.
\<close>

definition rnd_pack :: "real \<Rightarrow> int \<Rightarrow> int \<Rightarrow> number" where
  "rnd_pack r u m =
     (if 2 ^ 1024 \<le> of_int m * pow2 u then (if 0 < r then PosInf else NegInf)
      else if m = 0 then (if 0 < r then Fin 0 else NegZero)
      else Fin (if 0 < r then of_int m * pow2 u else - (of_int m * pow2 u)))"

definition rnd_at :: "real \<Rightarrow> int \<Rightarrow> number" where
  "rnd_at r u = rnd_pack r u (round_half_even (\<bar>r\<bar> / pow2 u))"

definition rnd :: "real \<Rightarrow> number" where
  "rnd r = (if r = 0 then Fin 0 else rnd_at r (max (ilog2 \<bar>r\<bar> - 52) (- 1074)))"

fun is_neg :: "number \<Rightarrow> bool" where
  "is_neg (Fin q) = (q < 0)"
| "is_neg NegZero = True"
| "is_neg NegInf = True"
| "is_neg PosInf = False"
| "is_neg NaN = False"

text \<open>\<open>x === 0\<close> holds for both zeros.\<close>

fun is_zero :: "number \<Rightarrow> bool" where
  "is_zero (Fin q) = (q = 0)"
| "is_zero NegZero = True"
| "is_zero _ = False"

fun is_inf :: "number \<Rightarrow> bool" where
  "is_inf PosInf = True"
| "is_inf NegInf = True"
| "is_inf _ = False"

fun is_finite :: "number \<Rightarrow> bool" where
  "is_finite (Fin q) = True"
| "is_finite NegZero = True"
| "is_finite _ = False"

fun val :: "number \<Rightarrow> real" where
  "val (Fin q) = q"
| "val _ = 0"

definition signed_zero :: "bool \<Rightarrow> number" where
  "signed_zero neg = (if neg then NegZero else Fin 0)"

definition signed_inf :: "bool \<Rightarrow> number" where
  "signed_inf neg = (if neg then NegInf else PosInf)"

text \<open>\<open>x - y\<close>. An exact zero difference is \<open>+0\<close>, except \<open>-0 - +0 = -0\<close>.\<close>

definition fsub :: "number \<Rightarrow> number \<Rightarrow> number" where
  "fsub x y =
     (if x = NaN \<or> y = NaN then NaN
      else if is_inf x then (if y = x then NaN else x)
      else if is_inf y then signed_inf (\<not> is_neg y)
      else if val x - val y \<noteq> 0 then rnd (val x - val y)
      else if x = NegZero \<and> y = Fin 0 then NegZero else Fin 0)"

text \<open>\<open>x * y\<close>. Infinity times zero is NaN; the sign of a zero or an infinity is the
  exclusive or of the operands' signs.\<close>

definition fmul :: "number \<Rightarrow> number \<Rightarrow> number" where
  "fmul x y =
     (if x = NaN \<or> y = NaN then NaN
      else if is_inf x \<or> is_inf y then
        (if is_zero x \<or> is_zero y then NaN else signed_inf (is_neg x \<noteq> is_neg y))
      else if val x * val y = 0 then signed_zero (is_neg x \<noteq> is_neg y)
      else rnd (val x * val y))"

text \<open>\<open>x / y\<close>. JavaScript raises nothing on a zero divisor: \<open>0 / 0\<close> is NaN and any
  other quotient by zero is an infinity.\<close>

definition fdiv :: "number \<Rightarrow> number \<Rightarrow> number" where
  "fdiv x y =
     (if x = NaN \<or> y = NaN then NaN
      else if is_inf x then (if is_inf y then NaN else signed_inf (is_neg x \<noteq> is_neg y))
      else if is_inf y then signed_zero (is_neg x \<noteq> is_neg y)
      else if is_zero y then
        (if is_zero x then NaN else signed_inf (is_neg x \<noteq> is_neg y))
      else if is_zero x then signed_zero (is_neg x \<noteq> is_neg y)
      else rnd (val x / val y))"

text \<open>
  \<open>Number.prototype.toFixed(1)\<close> on a non-negative value \<open>a < 10 ^ 21\<close> prints the
  integer \<open>n\<close> for which \<open>n / 10 - a\<close> is closest to zero, the larger one of two.
\<close>

definition toFixed1_digits :: "real \<Rightarrow> int" where
  "toFixed1_digits a = \<lfloor>a * 10 + 1 / 2\<rfloor>"

text \<open>
  \<open>Number(x.toFixed(1))\<close>: NaN and the infinities print as their names and parse back;
  a magnitude from \<open>10 ^ 21\<close> on prints as \<open>String(x)\<close> and parses back to \<open>x\<close>; a negative
  value prints a minus sign before the digits, so that \<open>"-0.0"\<close> parses to the negative
  zero; the negative zero itself prints as \<open>"0.0"\<close>. Parsing rounds the decimal numeral
  to the nearest double: \<open>Number_fixed1 neg n\<close> is the number parsed from the digits
  of \<open>n\<close> with one decimal place, after a minus sign if \<open>neg\<close>.
\<close>

definition Number_fixed1 :: "bool \<Rightarrow> int \<Rightarrow> number" where
  "Number_fixed1 neg n =
     (if neg then (if n = 0 then NegZero else rnd (- (of_int n / 10)))
      else rnd (of_int n / 10))"

fun toFixed1 :: "number \<Rightarrow> number" where
  "toFixed1 (Fin q) =
     (if 10 ^ 21 \<le> \<bar>q\<bar> then Fin q else Number_fixed1 (q < 0) (toFixed1_digits \<bar>q\<bar>))"
| "toFixed1 NegZero = Fin 0"
| "toFixed1 x = x"

section \<open>Values, tables and rows\<close>

text \<open>A table entry or a row field is \<open>undefined\<close>, \<open>null\<close> or a number.\<close>

datatype jsval = Undefined | Null | Num number

text \<open>\<open>v == null\<close> holds for \<open>null\<close> and \<open>undefined\<close>.\<close>

fun is_nullish :: "jsval \<Rightarrow> bool" where
  "is_nullish (Num n) = False"
| "is_nullish _ = True"

text \<open>\<open>v ?? null\<close>\<close>

fun coalesce_null :: "jsval \<Rightarrow> jsval" where
  "coalesce_null (Num n) = Num n"
| "coalesce_null _ = Null"

text \<open>A numeric literal of the source denotes the nearest double.\<close>

definition numlit :: "real \<Rightarrow> jsval" where
  "numlit q = Num (rnd q)"

text \<open>
  The hard-coded tables are object literals keyed by year; reading a key that the object
  does not have gives \<open>undefined\<close>.
\<close>

type_synonym table = "int \<rightharpoonup> jsval"

definition lookup :: "table \<Rightarrow> int \<Rightarrow> jsval" where
  "lookup t y = (case t y of None \<Rightarrow> Undefined | Some v \<Rightarrow> v)"

text \<open>
  \<open>buildRows\<close> reads ten module-level constant tables and the constant \<open>years\<close>. They are
  passed as arguments here, so that the properties hold for any data; \<open>source_tables\<close> and
  \<open>years\<close> below are the constants of the source.
\<close>

record tables =
  localPrice_tbl :: table
  globalPrice_tbl :: table
  mifcoLocalPrice_tbl :: table
  revenueMvr_tbl :: table
  netProfitMvr_tbl :: table
  subsidyMvr_tbl :: table
  purchasesTonnes_tbl :: table
  mifcoPurchasesTonnes_tbl :: table
  exportsTonnes_tbl :: table
  totalCatchTonnes_tbl :: table

definition source_tables :: tables where
  "source_tables = \<lparr>
     localPrice_tbl = [2021 \<mapsto> numlit 14, 2022 \<mapsto> numlit 15, 2023 \<mapsto> numlit 23,
                       2024 \<mapsto> numlit 14, 2025 \<mapsto> numlit 14],
     globalPrice_tbl = [2021 \<mapsto> numlit (254 / 10), 2022 \<mapsto> numlit (262 / 10),
                        2023 \<mapsto> numlit (224 / 10), 2024 \<mapsto> numlit (231 / 10),
                        2025 \<mapsto> numlit (241 / 10)],
     mifcoLocalPrice_tbl = [2021 \<mapsto> numlit 14, 2022 \<mapsto> numlit 15, 2023 \<mapsto> numlit 25,
                            2024 \<mapsto> numlit 14, 2025 \<mapsto> numlit 16],
     revenueMvr_tbl = [2021 \<mapsto> numlit 1199676000, 2022 \<mapsto> numlit 1634520000,
                       2023 \<mapsto> numlit 2008805560, 2024 \<mapsto> numlit 1075554268,
                       2025 \<mapsto> Null],
     netProfitMvr_tbl = [2021 \<mapsto> Null, 2022 \<mapsto> Null, 2023 \<mapsto> numlit 298329409,
                         2024 \<mapsto> numlit (- 165639426), 2025 \<mapsto> Null],
     subsidyMvr_tbl = [2021 \<mapsto> Null, 2022 \<mapsto> Null, 2023 \<mapsto> numlit 250000000,
                       2024 \<mapsto> numlit 404356780, 2025 \<mapsto> numlit 341814184],
     purchasesTonnes_tbl = [2021 \<mapsto> numlit 88313, 2022 \<mapsto> numlit 81033,
                            2023 \<mapsto> numlit 96120, 2024 \<mapsto> numlit 53232, 2025 \<mapsto> Null],
     mifcoPurchasesTonnes_tbl = [2021 \<mapsto> Null, 2022 \<mapsto> numlit 55989,
                                 2023 \<mapsto> numlit 62352, 2024 \<mapsto> numlit 50588,
                                 2025 \<mapsto> Null],
     exportsTonnes_tbl = [2021 \<mapsto> numlit 66480, 2022 \<mapsto> numlit 65580,
                          2023 \<mapsto> numlit 64350, 2024 \<mapsto> numlit 31730, 2025 \<mapsto> Null],
     totalCatchTonnes_tbl = [2021 \<mapsto> numlit 144993, 2022 \<mapsto> numlit 155205,
                             2023 \<mapsto> numlit 160683, 2024 \<mapsto> numlit 107666,
                             2025 \<mapsto> Null] \<rparr>"

definition years :: "int list" where
  "years = [2021, 2022, 2023, 2024, 2025]"

record row =
  year :: string
  localPrice :: jsval
  mifcoLocalPrice :: jsval
  globalPrice :: jsval
  priceGap :: jsval
  priceGapPct :: jsval
  priceGapMifco :: jsval
  priceGapMifcoPct :: jsval
  revenueMvr :: jsval
  netProfitMvr :: jsval
  revenueMvrMillions :: jsval
  netProfitMvrMillions :: jsval
  subsidyMvr :: jsval
  subsidyMvrMillions :: jsval
  purchasesKt :: jsval
  exportsKt :: jsval
  cashToBoatsMvrM :: jsval
  totalCatchKt :: jsval
  mifcoPurchasesKt :: jsval
  mifcoShareOfCatchPct :: jsval
  "notes" :: "string option"

record rowWithYoY = row +
  yoyLocal :: jsval
  yoyGlobal :: jsval
  yoyRevenue :: jsval
  yoyNetProfit :: jsval
  yoySubsidy :: jsval

section \<open>The row builder\<close>

text \<open>
  \<open>String(y)\<close> for an integer year: its decimal digits, a minus sign first if negative.
  This is what JavaScript prints for an integer of magnitude below \<open>10 ^ 21\<close>; from there
  on it prints exponent notation, which is not modelled.
\<close>

definition digit_char :: "nat \<Rightarrow> char" where
  "digit_char d = ''0123456789'' ! d"

fun digits :: "nat \<Rightarrow> string" where
  "digits n =
     (if n < 10 then [digit_char n]
      else digits (n div 10) @ [digit_char (n mod 10)])"

declare digits.simps [simp del]

definition String :: "int \<Rightarrow> string" where
  "String y = (if y < 0 then CHR ''-'' # digits (nat (- y)) else digits (nat y))"

text \<open>
  \<open>a != null ? Number(f(a).toFixed(1)) : null\<close> and
  \<open>a != null && b != null ? Number(f(a, b).toFixed(1)) : null\<close>,
  the two shapes of every derived field of \<open>buildRows\<close>.
\<close>

definition derive1 :: "(number \<Rightarrow> number) \<Rightarrow> jsval \<Rightarrow> jsval" where
  "derive1 f a = (case a of Num x \<Rightarrow> Num (toFixed1 (f x)) | _ \<Rightarrow> Null)"

definition derive2 :: "(number \<Rightarrow> number \<Rightarrow> number) \<Rightarrow> jsval \<Rightarrow> jsval \<Rightarrow> jsval" where
  "derive2 f a b =
     (case a of
        Num x \<Rightarrow> (case b of Num y \<Rightarrow> Num (toFixed1 (f x y)) | _ \<Rightarrow> Null)
      | _ \<Rightarrow> Null)"

text \<open>\<open>Number((v / 1_000_000).toFixed(1))\<close>, the scaling of a monetary value to millions.\<close>

definition toMillions :: "number \<Rightarrow> number" where
  "toMillions v = toFixed1 (fdiv v (Fin 1000000))"

definition notes_of :: "int \<Rightarrow> string option" where
  "notes_of y =
     (if y = 2025 then Some ''2025 prices YTD; revenue not yet published; subsidy is budgeted''
      else if y = 2024 then Some ''Subsidy recorded net against cost of sales (MVR 4/kg scheme)''
      else if y = 2023
      then Some ''Grant recorded in Other Income; fixed price policy in effect (Sep)''
      else None)"

definition buildRow :: "tables \<Rightarrow> int \<Rightarrow> row" where
  "buildRow T y =
     (let local = lookup (localPrice_tbl T) y;
          global = lookup (globalPrice_tbl T) y;
          revenue = lookup (revenueMvr_tbl T) y;
          netProfit = lookup (netProfitMvr_tbl T) y;
          subsidy = lookup (subsidyMvr_tbl T) y;
          purchT = lookup (purchasesTonnes_tbl T) y;
          mifcoLocal = lookup (mifcoLocalPrice_tbl T) y;
          exportT = lookup (exportsTonnes_tbl T) y;
          catchT = lookup (totalCatchTonnes_tbl T) y;
          mifcoPurchT = lookup (mifcoPurchasesTonnes_tbl T) y;
          cashToBoats =
            derive2 (\<lambda>l p. fdiv (fmul (fmul l p) (Fin 1000)) (Fin 1000000)) local purchT;
          gap = derive2 (\<lambda>l g. fsub g l) local global;
          gapMifco = derive2 (\<lambda>m g. fsub g m) mifcoLocal global
      in \<lparr> year = String y,
           localPrice = coalesce_null local,
           mifcoLocalPrice = coalesce_null mifcoLocal,
           globalPrice = coalesce_null global,
           priceGap = gap,
           priceGapPct = derive2 (\<lambda>g l. fmul (fdiv g l) (Fin 100)) gap local,
           priceGapMifco = gapMifco,
           priceGapMifcoPct = derive2 (\<lambda>g m. fmul (fdiv g m) (Fin 100)) gapMifco mifcoLocal,
           revenueMvr = revenue,
           netProfitMvr = netProfit,
           revenueMvrMillions = derive1 (\<lambda>v. fdiv v (Fin 1000000)) revenue,
           netProfitMvrMillions = derive1 (\<lambda>v. fdiv v (Fin 1000000)) netProfit,
           subsidyMvr = subsidy,
           subsidyMvrMillions = derive1 (\<lambda>v. fdiv v (Fin 1000000)) subsidy,
           purchasesKt = derive1 (\<lambda>v. fdiv v (Fin 1000)) purchT,
           exportsKt = derive1 (\<lambda>v. fdiv v (Fin 1000)) exportT,
           cashToBoatsMvrM = cashToBoats,
           totalCatchKt = derive1 (\<lambda>v. fdiv v (Fin 1000)) catchT,
           mifcoPurchasesKt = derive1 (\<lambda>v. fdiv v (Fin 1000)) mifcoPurchT,
           mifcoShareOfCatchPct =
             derive2 (\<lambda>m c. fmul (fdiv m c) (Fin 100)) mifcoPurchT catchT,
           notes = notes_of y \<rparr>)"

definition buildRows :: "tables \<Rightarrow> int list \<Rightarrow> row list" where
  "buildRows T ys = map (buildRow T) ys"

section \<open>Year-over-year changes\<close>

text \<open>\<open>((curr - prev) / prev) * 100\<close>\<close>

definition pctChange :: "number \<Rightarrow> number \<Rightarrow> number" where
  "pctChange c p = fmul (fdiv (fsub c p) p) (Fin 100)"

fun yoy :: "jsval \<Rightarrow> jsval \<Rightarrow> jsval" where
  "yoy (Num c) (Num p) = (if is_zero p then Null else Num (toFixed1 (pctChange c p)))"
| "yoy _ _ = Null"

text \<open>\<open>o?.field\<close> and \<open>o?.field ?? null\<close>, where \<open>o\<close> is a row or \<open>undefined\<close>.\<close>

definition opt_field :: "'r option \<Rightarrow> ('r \<Rightarrow> jsval) \<Rightarrow> jsval" where
  "opt_field ob f = (case ob of None \<Rightarrow> Undefined | Some r \<Rightarrow> f r)"

definition field_or_null :: "'r option \<Rightarrow> ('r \<Rightarrow> jsval) \<Rightarrow> jsval" where
  "field_or_null ob f = coalesce_null (opt_field ob f)"

definition withYoY :: "row \<Rightarrow> row option \<Rightarrow> rowWithYoY" where
  "withYoY r prev =
     row.extend r
       (rowWithYoY.fields
          (yoy (localPrice r) (field_or_null prev localPrice))
          (yoy (globalPrice r) (field_or_null prev globalPrice))
          (yoy (revenueMvrMillions r) (field_or_null prev revenueMvrMillions))
          (yoy (netProfitMvrMillions r) (field_or_null prev netProfitMvrMillions))
          (yoy (subsidyMvrMillions r) (field_or_null prev subsidyMvrMillions)))"

text \<open>
  \<open>useMemo\<close> with a pure callback returns the callback's value, computed at the first
  render and kept afterwards; the hook is therefore the value it computes.
\<close>

definition useRowsWithYoY :: "tables \<Rightarrow> int list \<Rightarrow> rowWithYoY list" where
  "useRowsWithYoY T ys =
     (let rows = buildRows T ys
      in map (\<lambda>(idx, r). withYoY r (if 0 < idx then Some (rows ! (idx - 1)) else None))
           (enumerate 0 rows))"

section \<open>Headline figures of the dashboard\<close>

text \<open>\<open>data[i]\<close>: an index outside the array reads \<open>undefined\<close>.\<close>

definition js_index :: "'a list \<Rightarrow> int \<Rightarrow> 'a option" where
  "js_index xs i = (if 0 \<le> i \<and> i < int (length xs) then Some (xs ! nat i) else None)"

record headline =
  latest :: "rowWithYoY option"
  prev :: "rowWithYoY option"
  priceCollapse :: jsval
  revenueDrop :: jsval
  subsidyYoY :: jsval
  purchasesDrop :: jsval
  exportsDrop :: jsval

text \<open>
  The first statements of the component \<open>MaldivesTunaDashboard\<close>: the two rows it reads
  and the five figures it computes from them. Each of the last four is
  \<open>latest?.f != null && prev?.f != null ? Number((((latest.f - prev.f) / prev.f) * 100).toFixed(1)) : null\<close>,
  with no test of the divisor.
\<close>

definition MaldivesTunaDashboard_headline :: "rowWithYoY list \<Rightarrow> headline" where
  "MaldivesTunaDashboard_headline data =
     (let l = js_index data (int (length data) - 2);
          p = js_index data (int (length data) - 3)
      in \<lparr> latest = l,
           prev = p,
           priceCollapse = yoy (field_or_null l localPrice) (field_or_null p localPrice),
           revenueDrop =
             derive2 pctChange (opt_field l revenueMvrMillions) (opt_field p revenueMvrMillions),
           subsidyYoY =
             derive2 pctChange (opt_field l subsidyMvrMillions) (opt_field p subsidyMvrMillions),
           purchasesDrop = derive2 pctChange (opt_field l purchasesKt) (opt_field p purchasesKt),
           exportsDrop = derive2 pctChange (opt_field l exportsKt) (opt_field p exportsKt) \<rparr>)"

text \<open>A value is present when it is neither \<open>null\<close> nor \<open>undefined\<close>.\<close>

definition present :: "jsval \<Rightarrow> bool" where
  "present v = (\<not> is_nullish v)"

text \<open>
  \<open>present_iff v c\<close>: the derived value \<open>v\<close> is a number if all its operands are present
  (\<open>c\<close>), and is \<open>null\<close> otherwise.
\<close>

definition present_iff :: "jsval \<Rightarrow> bool \<Rightarrow> bool" where
  "present_iff v c = (if c then present v else v = Null)"

text \<open>
  \<open>passed_through raw out\<close>: the output field is the raw value, or the raw value is absent
  and the output field is \<open>null\<close>.
\<close>

definition passed_through :: "jsval \<Rightarrow> jsval \<Rightarrow> bool" where
  "passed_through raw out = (out = raw \<or> (is_nullish raw \<and> out = Null))"

section \<open>Evaluation and structure lemmas\<close>

lemma blen_0: "blen 0 = 0"
  by (simp add: blen.simps)

lemma blen_Suc0: "blen (Suc 0) = Suc 0"
  by (simp add: blen.simps)

lemma blen_numeral: "blen (numeral k) = Suc (blen (numeral k div 2))"
  by (subst blen.simps) simp

lemmas num_eval = rnd_def rnd_at_def rnd_pack_def ilog2_def blen_0 blen_Suc0 blen_numeral
  pow2_def round_half_even_def fsub_def fmul_def fdiv_def signed_zero_def signed_inf_def
  toFixed1_digits_def Number_fixed1_def pctChange_def numlit_def

lemma digits_numeral:
  "digits (numeral k) =
     (if (numeral k :: nat) < 10 then [digit_char (numeral k)]
      else digits (numeral k div 10) @ [digit_char (numeral k mod 10)])"
  by (subst digits.simps) simp

lemma length_buildRows: "length (buildRows T ys) = length ys"
  by (simp add: buildRows_def)

lemma nth_buildRows: "i < length ys \<Longrightarrow> buildRows T ys ! i = buildRow T (ys ! i)"
  by (simp add: buildRows_def)

lemma length_useRowsWithYoY: "length (useRowsWithYoY T ys) = length ys"
  by (simp add: useRowsWithYoY_def Let_def length_buildRows)

lemma nth_useRowsWithYoY:
  "i < length ys \<Longrightarrow>
   useRowsWithYoY T ys ! i =
     withYoY (buildRow T (ys ! i)) (if 0 < i then Some (buildRow T (ys ! (i - 1))) else None)"
  by (simp add: useRowsWithYoY_def Let_def length_buildRows nth_buildRows nth_enumerate_eq)

lemma withYoY_sel:
  "year (withYoY r p) = year r"
  "localPrice (withYoY r p) = localPrice r"
  "mifcoLocalPrice (withYoY r p) = mifcoLocalPrice r"
  "globalPrice (withYoY r p) = globalPrice r"
  "priceGapPct (withYoY r p) = priceGapPct r"
  "revenueMvr (withYoY r p) = revenueMvr r"
  "netProfitMvr (withYoY r p) = netProfitMvr r"
  "subsidyMvr (withYoY r p) = subsidyMvr r"
  "revenueMvrMillions (withYoY r p) = revenueMvrMillions r"
  "netProfitMvrMillions (withYoY r p) = netProfitMvrMillions r"
  "subsidyMvrMillions (withYoY r p) = subsidyMvrMillions r"
  "purchasesKt (withYoY r p) = purchasesKt r"
  "exportsKt (withYoY r p) = exportsKt r"
  by (simp_all add: withYoY_def row.defs rowWithYoY.defs)

lemma withYoY_yoy:
  "yoyLocal (withYoY r p) = yoy (localPrice r) (field_or_null p localPrice)"
  "yoyGlobal (withYoY r p) = yoy (globalPrice r) (field_or_null p globalPrice)"
  "yoyRevenue (withYoY r p) = yoy (revenueMvrMillions r) (field_or_null p revenueMvrMillions)"
  "yoyNetProfit (withYoY r p) =
     yoy (netProfitMvrMillions r) (field_or_null p netProfitMvrMillions)"
  "yoySubsidy (withYoY r p) = yoy (subsidyMvrMillions r) (field_or_null p subsidyMvrMillions)"
  by (simp_all add: withYoY_def row.defs rowWithYoY.defs)

lemma buildRow_raw:
  "year (buildRow T y) = String y"
  "localPrice (buildRow T y) = coalesce_null (lookup (localPrice_tbl T) y)"
  "mifcoLocalPrice (buildRow T y) = coalesce_null (lookup (mifcoLocalPrice_tbl T) y)"
  "globalPrice (buildRow T y) = coalesce_null (lookup (globalPrice_tbl T) y)"
  "revenueMvr (buildRow T y) = lookup (revenueMvr_tbl T) y"
  "netProfitMvr (buildRow T y) = lookup (netProfitMvr_tbl T) y"
  "subsidyMvr (buildRow T y) = lookup (subsidyMvr_tbl T) y"
  by (simp_all add: buildRow_def Let_def)

lemma buildRow_derived:
  "priceGap (buildRow T y) =
     derive2 (\<lambda>l g. fsub g l) (lookup (localPrice_tbl T) y) (lookup (globalPrice_tbl T) y)"
  "priceGapPct (buildRow T y) =
     derive2 (\<lambda>g l. fmul (fdiv g l) (Fin 100))
       (derive2 (\<lambda>l g. fsub g l) (lookup (localPrice_tbl T) y) (lookup (globalPrice_tbl T) y))
       (lookup (localPrice_tbl T) y)"
  "priceGapMifco (buildRow T y) =
     derive2 (\<lambda>m g. fsub g m) (lookup (mifcoLocalPrice_tbl T) y)
       (lookup (globalPrice_tbl T) y)"
  "priceGapMifcoPct (buildRow T y) =
     derive2 (\<lambda>g m. fmul (fdiv g m) (Fin 100))
       (derive2 (\<lambda>m g. fsub g m) (lookup (mifcoLocalPrice_tbl T) y)
          (lookup (globalPrice_tbl T) y))
       (lookup (mifcoLocalPrice_tbl T) y)"
  "cashToBoatsMvrM (buildRow T y) =
     derive2 (\<lambda>l p. fdiv (fmul (fmul l p) (Fin 1000)) (Fin 1000000))
       (lookup (localPrice_tbl T) y) (lookup (purchasesTonnes_tbl T) y)"
  "revenueMvrMillions (buildRow T y) =
     derive1 (\<lambda>v. fdiv v (Fin 1000000)) (lookup (revenueMvr_tbl T) y)"
  "netProfitMvrMillions (buildRow T y) =
     derive1 (\<lambda>v. fdiv v (Fin 1000000)) (lookup (netProfitMvr_tbl T) y)"
  "subsidyMvrMillions (buildRow T y) =
     derive1 (\<lambda>v. fdiv v (Fin 1000000)) (lookup (subsidyMvr_tbl T) y)"
  "purchasesKt (buildRow T y) = derive1 (\<lambda>v. fdiv v (Fin 1000)) (lookup (purchasesTonnes_tbl T) y)"
  "exportsKt (buildRow T y) = derive1 (\<lambda>v. fdiv v (Fin 1000)) (lookup (exportsTonnes_tbl T) y)"
  "totalCatchKt (buildRow T y) =
     derive1 (\<lambda>v. fdiv v (Fin 1000)) (lookup (totalCatchTonnes_tbl T) y)"
  "mifcoPurchasesKt (buildRow T y) =
     derive1 (\<lambda>v. fdiv v (Fin 1000)) (lookup (mifcoPurchasesTonnes_tbl T) y)"
  "mifcoShareOfCatchPct (buildRow T y) =
     derive2 (\<lambda>m c. fmul (fdiv m c) (Fin 100)) (lookup (mifcoPurchasesTonnes_tbl T) y)
       (lookup (totalCatchTonnes_tbl T) y)"
  by (simp_all add: buildRow_def Let_def)

lemma present_derive1: "present (derive1 f a) = present a"
  by (cases a) (simp_all add: derive1_def present_def)

lemma null_derive1: "(derive1 f a = Null) = (\<not> present a)"
  by (cases a) (simp_all add: derive1_def present_def)

lemma present_derive2: "present (derive2 f a b) = (present a \<and> present b)"
  by (cases a; cases b) (simp_all add: derive2_def present_def)

lemma null_derive2: "(derive2 f a b = Null) = (\<not> (present a \<and> present b))"
  by (cases a; cases b) (simp_all add: derive2_def present_def)

lemma derive1_Num: "derive1 f (Num x) = Num (toFixed1 (f x))"
  by (simp add: derive1_def)

lemma derive2_Num: "derive2 f (Num x) (Num y) = Num (toFixed1 (f x y))"
  by (simp add: derive2_def)

lemma derive1_toMillions:
  "derive1 (\<lambda>v. fdiv v (Fin 1000000)) a = (case a of Num v \<Rightarrow> Num (toMillions v) | _ \<Rightarrow> Null)"
  by (cases a) (simp_all add: derive1_def toMillions_def)

lemma coalesce_null_nullish: "is_nullish v \<Longrightarrow> coalesce_null v = Null"
  by (cases v) simp_all

lemma derive1_nullish: "is_nullish v \<Longrightarrow> derive1 f v = Null"
  by (cases v) (simp_all add: derive1_def)

lemma yoy_nullish: "is_nullish c \<or> is_nullish p \<Longrightarrow> yoy c p = Null"
  by (cases c; cases p) simp_all

lemma field_or_null_None: "field_or_null None f = Null"
  by (simp add: field_or_null_def opt_field_def)

lemma field_or_null_Some: "field_or_null (Some r) f = coalesce_null (f r)"
  by (simp add: field_or_null_def opt_field_def)


section \<open>Absence propagates\<close>

text \<open>
  Claim C1. In every row that \<open>buildRows\<close> produces, each of the thirteen derived
  metrics is a number exactly when all the raw table entries it depends on are present,
  and is \<open>null\<close> as soon as one of them is \<open>null\<close> or \<open>undefined\<close>: an absent operand
  never yields zero, NaN or an infinity.
\<close>

theorem buildRows_absence_propagates:
  assumes "i < length ys"
  shows
    "let r = buildRows T ys ! i; y = ys ! i;
         local = lookup (localPrice_tbl T) y;
         global = lookup (globalPrice_tbl T) y;
         mifcoLocal = lookup (mifcoLocalPrice_tbl T) y;
         revenue = lookup (revenueMvr_tbl T) y;
         netProfit = lookup (netProfitMvr_tbl T) y;
         subsidy = lookup (subsidyMvr_tbl T) y;
         purchT = lookup (purchasesTonnes_tbl T) y;
         exportT = lookup (exportsTonnes_tbl T) y;
         catchT = lookup (totalCatchTonnes_tbl T) y;
         mifcoPurchT = lookup (mifcoPurchasesTonnes_tbl T) y
     in present_iff (priceGap r) (present local \<and> present global) \<and>
        present_iff (priceGapPct r) (present local \<and> present global) \<and>
        present_iff (priceGapMifco r) (present mifcoLocal \<and> present global) \<and>
        present_iff (priceGapMifcoPct r) (present mifcoLocal \<and> present global) \<and>
        present_iff (cashToBoatsMvrM r) (present local \<and> present purchT) \<and>
        present_iff (revenueMvrMillions r) (present revenue) \<and>
        present_iff (netProfitMvrMillions r) (present netProfit) \<and>
        present_iff (subsidyMvrMillions r) (present subsidy) \<and>
        present_iff (purchasesKt r) (present purchT) \<and>
        present_iff (exportsKt r) (present exportT) \<and>
        present_iff (totalCatchKt r) (present catchT) \<and>
        present_iff (mifcoPurchasesKt r) (present mifcoPurchT) \<and>
        present_iff (mifcoShareOfCatchPct r) (present mifcoPurchT \<and> present catchT)"
proof -
  have one: "present_iff (derive1 f a) (present a)" for f a
    by (simp add: present_iff_def present_derive1 null_derive1)
  have two: "present_iff (derive2 f a b) (present a \<and> present b)" for f a b
    by (simp add: present_iff_def present_derive2 null_derive2)
  have pct: "present_iff (derive2 f (derive2 g a b) a) (present a \<and> present b)" for f g a b
    by (cases a; cases b) (simp_all add: present_iff_def derive2_def present_def)
  show ?thesis
    using assms by (simp add: Let_def nth_buildRows buildRow_derived one two pct)
qed

theorem buildRows_absence_propagates_witness:
  "4 < length years \<and>
   present (priceGap (buildRows source_tables years ! 4)) \<and>
   present (priceGapPct (buildRows source_tables years ! 4)) \<and>
   present (subsidyMvrMillions (buildRows source_tables years ! 4)) \<and>
   revenueMvrMillions (buildRows source_tables years ! 4) = Null \<and>
   cashToBoatsMvrM (buildRows source_tables years ! 4) = Null \<and>
   mifcoShareOfCatchPct (buildRows source_tables years ! 4) = Null"
  using buildRows_absence_propagates [of 4 years source_tables]
  by (simp add: Let_def years_def source_tables_def lookup_def present_iff_def present_def
      numlit_def)

text \<open>
  Claim C2. \<open>yoy\<close> returns \<open>null\<close> when the current or the previous value is absent.
  In the rows of \<open>useRowsWithYoY\<close>, each of the five year-over-year fields is \<open>null\<close>
  when the raw entry of its metric is absent for the row's year or for the year before,
  or when there is no year before.
\<close>

theorem yoy_absent_operand:
  "(is_nullish cur \<or> is_nullish prv \<longrightarrow> yoy cur prv = Null) \<and>
   (i < length ys \<longrightarrow>
      (let out = useRowsWithYoY T ys ! i; y = ys ! i; y' = ys ! (i - 1)
       in (is_nullish (lookup (localPrice_tbl T) y) \<or> i = 0 \<or>
             is_nullish (lookup (localPrice_tbl T) y') \<longrightarrow> yoyLocal out = Null) \<and>
          (is_nullish (lookup (globalPrice_tbl T) y) \<or> i = 0 \<or>
             is_nullish (lookup (globalPrice_tbl T) y') \<longrightarrow> yoyGlobal out = Null) \<and>
          (is_nullish (lookup (revenueMvr_tbl T) y) \<or> i = 0 \<or>
             is_nullish (lookup (revenueMvr_tbl T) y') \<longrightarrow> yoyRevenue out = Null) \<and>
          (is_nullish (lookup (netProfitMvr_tbl T) y) \<or> i = 0 \<or>
             is_nullish (lookup (netProfitMvr_tbl T) y') \<longrightarrow> yoyNetProfit out = Null) \<and>
          (is_nullish (lookup (subsidyMvr_tbl T) y) \<or> i = 0 \<or>
             is_nullish (lookup (subsidyMvr_tbl T) y') \<longrightarrow> yoySubsidy out = Null)))"
proof -
  have raw: "is_nullish a \<or> i = 0 \<or> is_nullish b \<Longrightarrow>
      yoy (coalesce_null a)
        (field_or_null (if 0 < i then Some (buildRow T (ys ! (i - 1))) else None) f) = Null"
    if "f (buildRow T (ys ! (i - 1))) = coalesce_null b" for a b f
    using that
    by (auto simp: yoy_nullish coalesce_null_nullish field_or_null_None field_or_null_Some)
  have drv: "is_nullish a \<or> i = 0 \<or> is_nullish b \<Longrightarrow>
      yoy (derive1 g a)
        (field_or_null (if 0 < i then Some (buildRow T (ys ! (i - 1))) else None) f) = Null"
    if "f (buildRow T (ys ! (i - 1))) = derive1 g b" for a b f g
    using that
    by (auto simp: yoy_nullish derive1_nullish field_or_null_None field_or_null_Some)
  have right: "yoy a Null = Null" for a
    by (cases a) simp_all
  show ?thesis
    by (simp add: Let_def nth_useRowsWithYoY withYoY_yoy yoy_nullish buildRow_raw
        buildRow_derived raw drv field_or_null_None right del: coalesce_null.simps)
qed

theorem yoy_absent_operand_witness:
  "yoy Null (Num (Fin 1)) = Null \<and>
   yoyRevenue (useRowsWithYoY source_tables years ! 4) = Null \<and>
   yoyNetProfit (useRowsWithYoY source_tables years ! 4) = Null"
  using yoy_absent_operand [of Null "Num (Fin 1)" 4 years source_tables]
  by (simp add: Let_def years_def source_tables_def lookup_def)

section \<open>Shape of the output\<close>

text \<open>
  Claim C5. \<open>buildRows\<close> and \<open>useRowsWithYoY\<close> return one row per input year, in the
  order of the input: the \<open>i\<close>-th output row is the enrichment of the \<open>i\<close>-th year's row
  (with the row of the year before it, if any), and carries the \<open>i\<close>-th year as its label.
\<close>

theorem useRowsWithYoY_length_order:
  "length (buildRows T ys) = length ys \<and>
   length (useRowsWithYoY T ys) = length ys \<and>
   (\<forall>i < length ys.
      buildRows T ys ! i = buildRow T (ys ! i) \<and>
      useRowsWithYoY T ys ! i =
        withYoY (buildRow T (ys ! i))
          (if 0 < i then Some (buildRow T (ys ! (i - 1))) else None) \<and>
      year (useRowsWithYoY T ys ! i) = String (ys ! i))"
  by (simp add: length_buildRows length_useRowsWithYoY nth_buildRows nth_useRowsWithYoY
      withYoY_sel buildRow_raw)

theorem useRowsWithYoY_length_order_witness:
  "length (useRowsWithYoY source_tables years) = 5 \<and>
   year (useRowsWithYoY source_tables years ! 3) = ''2024''"
proof -
  have "(3::nat) < length years"
    by (simp add: years_def)
  with useRowsWithYoY_length_order [of source_tables years]
  have "length (useRowsWithYoY source_tables years) = length years"
    and "year (useRowsWithYoY source_tables years ! 3) = String (years ! 3)"
    by blast+
  then show ?thesis
    by (simp add: years_def String_def digits_numeral digit_char_def)
qed

text \<open>
  Claim C8. The first output row has no year before it: its five year-over-year
  fields are all \<open>null\<close>.
\<close>

theorem first_row_yoy_absent:
  assumes "ys \<noteq> []"
  shows "yoyLocal (useRowsWithYoY T ys ! 0) = Null \<and>
         yoyGlobal (useRowsWithYoY T ys ! 0) = Null \<and>
         yoyRevenue (useRowsWithYoY T ys ! 0) = Null \<and>
         yoyNetProfit (useRowsWithYoY T ys ! 0) = Null \<and>
         yoySubsidy (useRowsWithYoY T ys ! 0) = Null"
proof -
  have right: "yoy a Null = Null" for a
    by (cases a) simp_all
  from assms have "0 < length ys"
    by simp
  then show ?thesis
    by (simp add: nth_useRowsWithYoY withYoY_yoy field_or_null_None right)
qed

theorem first_row_yoy_absent_witness:
  "years \<noteq> [] \<and>
   yoyLocal (useRowsWithYoY source_tables years ! 0) = Null \<and>
   yoyGlobal (useRowsWithYoY source_tables years ! 0) = Null \<and>
   yoyRevenue (useRowsWithYoY source_tables years ! 0) = Null \<and>
   yoyNetProfit (useRowsWithYoY source_tables years ! 0) = Null \<and>
   yoySubsidy (useRowsWithYoY source_tables years ! 0) = Null"
proof -
  have ne: "years \<noteq> []"
    by (simp add: years_def)
  from first_row_yoy_absent [OF ne, of source_tables] ne show ?thesis
    by simp
qed

text \<open>
  Claim C9. The six raw fields of an output row are those of the tables:
  \<open>revenueMvr\<close>, \<open>netProfitMvr\<close> and \<open>subsidyMvr\<close> are the table entries themselves,
  \<open>localPrice\<close>, \<open>mifcoLocalPrice\<close> and \<open>globalPrice\<close> are the table entries with an
  absent entry turned into \<open>null\<close>. The enrichment with year-over-year fields leaves
  them as \<open>buildRows\<close> made them.
\<close>

theorem raw_fields_passed_through:
  assumes "i < length ys"
  shows
    "let r = useRowsWithYoY T ys ! i; b = buildRows T ys ! i; y = ys ! i
     in localPrice r = coalesce_null (lookup (localPrice_tbl T) y) \<and>
        mifcoLocalPrice r = coalesce_null (lookup (mifcoLocalPrice_tbl T) y) \<and>
        globalPrice r = coalesce_null (lookup (globalPrice_tbl T) y) \<and>
        revenueMvr r = lookup (revenueMvr_tbl T) y \<and>
        netProfitMvr r = lookup (netProfitMvr_tbl T) y \<and>
        subsidyMvr r = lookup (subsidyMvr_tbl T) y \<and>
        passed_through (lookup (localPrice_tbl T) y) (localPrice r) \<and>
        passed_through (lookup (mifcoLocalPrice_tbl T) y) (mifcoLocalPrice r) \<and>
        passed_through (lookup (globalPrice_tbl T) y) (globalPrice r) \<and>
        passed_through (lookup (revenueMvr_tbl T) y) (revenueMvr r) \<and>
        passed_through (lookup (netProfitMvr_tbl T) y) (netProfitMvr r) \<and>
        passed_through (lookup (subsidyMvr_tbl T) y) (subsidyMvr r) \<and>
        localPrice r = localPrice b \<and> mifcoLocalPrice r = mifcoLocalPrice b \<and>
        globalPrice r = globalPrice b \<and> revenueMvr r = revenueMvr b \<and>
        netProfitMvr r = netProfitMvr b \<and> subsidyMvr r = subsidyMvr b"
proof -
  have co: "passed_through v (coalesce_null v)" for v
    by (cases v) (simp_all add: passed_through_def)
  have same: "passed_through v v" for v
    by (simp add: passed_through_def)
  show ?thesis
    using assms
    by (simp add: Let_def nth_useRowsWithYoY nth_buildRows withYoY_sel buildRow_raw co same
        del: coalesce_null.simps)
qed

theorem raw_fields_passed_through_witness:
  "3 < length years \<and>
   localPrice (useRowsWithYoY source_tables years ! 3) = numlit 14 \<and>
   globalPrice (useRowsWithYoY source_tables years ! 3) = numlit (231 / 10) \<and>
   revenueMvr (useRowsWithYoY source_tables years ! 3) = numlit 1075554268 \<and>
   netProfitMvr (useRowsWithYoY source_tables years ! 3) = numlit (- 165639426) \<and>
   subsidyMvr (useRowsWithYoY source_tables years ! 3) = numlit 404356780"
  using raw_fields_passed_through [of 3 years source_tables]
  by (simp add: Let_def years_def source_tables_def lookup_def numlit_def)

section \<open>The hard-coded dataset\<close>

lemma source_row_2023:
  "year (buildRow source_tables 2023) = ''2023''"
  "localPrice (buildRow source_tables 2023) = numlit 23"
  "revenueMvrMillions (buildRow source_tables 2023) = numlit (20088 / 10)"
  "subsidyMvrMillions (buildRow source_tables 2023) = numlit 250"
  "purchasesKt (buildRow source_tables 2023) = numlit (961 / 10)"
  "exportsKt (buildRow source_tables 2023) = numlit (643 / 10)"
  by (simp_all add: buildRow_raw buildRow_derived source_tables_def lookup_def derive1_def
      String_def digits_numeral digit_char_def num_eval)

lemma source_row_2024:
  "year (buildRow source_tables 2024) = ''2024''"
  "localPrice (buildRow source_tables 2024) = numlit 14"
  "globalPrice (buildRow source_tables 2024) = numlit (231 / 10)"
  "revenueMvrMillions (buildRow source_tables 2024) = numlit (10756 / 10)"
  "subsidyMvrMillions (buildRow source_tables 2024) = numlit (4044 / 10)"
  "purchasesKt (buildRow source_tables 2024) = numlit (532 / 10)"
  "exportsKt (buildRow source_tables 2024) = numlit (317 / 10)"
  by (simp_all add: buildRow_raw buildRow_derived source_tables_def lookup_def derive1_def
      String_def digits_numeral digit_char_def num_eval)

lemma source_changes:
  "yoy (numlit 14) (numlit 23) = numlit (- 391 / 10)"
  "yoy (numlit (10756 / 10)) (numlit (20088 / 10)) = numlit (- 465 / 10)"
  "derive2 pctChange (numlit (10756 / 10)) (numlit (20088 / 10)) = numlit (- 465 / 10)"
  "derive2 pctChange (numlit (4044 / 10)) (numlit 250) = numlit (618 / 10)"
  "derive2 pctChange (numlit (532 / 10)) (numlit (961 / 10)) = numlit (- 446 / 10)"
  "derive2 pctChange (numlit (317 / 10)) (numlit (643 / 10)) = numlit (- 507 / 10)"
  by (simp_all add: derive2_def num_eval)

lemma numlit_distinct: "numlit (- 464 / 10) \<noteq> numlit (- 465 / 10)"
  by (simp add: num_eval)

lemma source_rows_nth:
  "useRowsWithYoY source_tables years ! 2 =
     withYoY (buildRow source_tables 2023) (Some (buildRow source_tables 2022))"
  "useRowsWithYoY source_tables years ! 3 =
     withYoY (buildRow source_tables 2024) (Some (buildRow source_tables 2023))"
  by (simp_all add: nth_useRowsWithYoY years_def)

lemma coalesce_null_numlit: "coalesce_null (numlit q) = numlit q"
  by (simp add: numlit_def)

lemma source_yoyRevenue_2024:
  "yoyRevenue (useRowsWithYoY source_tables years ! 3) = numlit (- 465 / 10)"
  by (simp only: source_rows_nth withYoY_yoy field_or_null_Some source_row_2023 source_row_2024
      coalesce_null_numlit source_changes)

text \<open>
  Claim C4 (amended). On the hard-coded dataset the revenue in millions is 2008.8 for
  2023 and 1075.6 for 2024, and the 2024 \<open>yoyRevenue\<close> field is \<open>yoy\<close> of these two
  rounded values, which is \<open>-46.5\<close>: \<open>(1075.6 - 2008.8) / 2008.8 * 100\<close> is about
  \<open>-46.4556\<close>, and one decimal place of that is \<open>-46.5\<close>, not \<open>-46.4\<close>.
\<close>

theorem source_yoyRevenue:
  "revenueMvr (useRowsWithYoY source_tables years ! 2) = numlit 2008805560 \<and>
   revenueMvr (useRowsWithYoY source_tables years ! 3) = numlit 1075554268 \<and>
   revenueMvrMillions (useRowsWithYoY source_tables years ! 2) = numlit (20088 / 10) \<and>
   revenueMvrMillions (useRowsWithYoY source_tables years ! 3) = numlit (10756 / 10) \<and>
   yoyRevenue (useRowsWithYoY source_tables years ! 3) =
     yoy (revenueMvrMillions (useRowsWithYoY source_tables years ! 3))
       (revenueMvrMillions (useRowsWithYoY source_tables years ! 2)) \<and>
   yoyRevenue (useRowsWithYoY source_tables years ! 3) = numlit (- 465 / 10)"
proof -
  have raw: "revenueMvr (buildRow source_tables 2023) = numlit 2008805560"
    "revenueMvr (buildRow source_tables 2024) = numlit 1075554268"
    by (simp_all add: buildRow_raw source_tables_def lookup_def)
  show ?thesis
    by (simp only: source_rows_nth withYoY_yoy withYoY_sel field_or_null_Some source_row_2023
        source_row_2024 coalesce_null_numlit source_changes raw simp_thms)
qed

text \<open>The claim as stated, with \<open>-46.4\<close>, does not hold.\<close>

theorem source_yoyRevenue_counterexample:
  "\<not> (revenueMvrMillions (useRowsWithYoY source_tables years ! 2) = numlit (20088 / 10) \<and>
      revenueMvrMillions (useRowsWithYoY source_tables years ! 3) = numlit (10756 / 10) \<and>
      yoyRevenue (useRowsWithYoY source_tables years ! 3) = numlit (- 464 / 10))"
  using numlit_distinct by (simp only: source_yoyRevenue_2024) simp

section \<open>Headline figures\<close>

lemma js_index_in_range: "k < length xs \<Longrightarrow> js_index xs (int k) = Some (xs ! k)"
  by (simp add: js_index_def)

lemma opt_field_Some: "opt_field (Some r) f = f r"
  by (simp add: opt_field_def)

lemma headline_rows:
  assumes "3 \<le> length data"
  shows "latest (MaldivesTunaDashboard_headline data) = Some (data ! (length data - 2))"
    and "prev (MaldivesTunaDashboard_headline data) = Some (data ! (length data - 3))"
proof -
  from assms have a: "int (length data) - 2 = int (length data - 2)"
    and b: "int (length data) - 3 = int (length data - 3)"
    by simp_all
  from assms have c: "length data - 2 < length data" and d: "length data - 3 < length data"
    by simp_all
  show "latest (MaldivesTunaDashboard_headline data) = Some (data ! (length data - 2))"
    by (simp add: MaldivesTunaDashboard_headline_def Let_def a js_index_in_range [OF c]
        del: of_nat_diff)
  show "prev (MaldivesTunaDashboard_headline data) = Some (data ! (length data - 3))"
    by (simp add: MaldivesTunaDashboard_headline_def Let_def b js_index_in_range [OF d]
        del: of_nat_diff)
qed

lemma headline_figures:
  "priceCollapse (MaldivesTunaDashboard_headline data) =
     yoy (field_or_null (latest (MaldivesTunaDashboard_headline data)) localPrice)
       (field_or_null (prev (MaldivesTunaDashboard_headline data)) localPrice)"
  "revenueDrop (MaldivesTunaDashboard_headline data) =
     derive2 pctChange
       (opt_field (latest (MaldivesTunaDashboard_headline data)) revenueMvrMillions)
       (opt_field (prev (MaldivesTunaDashboard_headline data)) revenueMvrMillions)"
  "subsidyYoY (MaldivesTunaDashboard_headline data) =
     derive2 pctChange
       (opt_field (latest (MaldivesTunaDashboard_headline data)) subsidyMvrMillions)
       (opt_field (prev (MaldivesTunaDashboard_headline data)) subsidyMvrMillions)"
  "purchasesDrop (MaldivesTunaDashboard_headline data) =
     derive2 pctChange (opt_field (latest (MaldivesTunaDashboard_headline data)) purchasesKt)
       (opt_field (prev (MaldivesTunaDashboard_headline data)) purchasesKt)"
  "exportsDrop (MaldivesTunaDashboard_headline data) =
     derive2 pctChange (opt_field (latest (MaldivesTunaDashboard_headline data)) exportsKt)
       (opt_field (prev (MaldivesTunaDashboard_headline data)) exportsKt)"
  by (simp_all add: MaldivesTunaDashboard_headline_def Let_def)

lemma source_headline_rows:
  "latest (MaldivesTunaDashboard_headline (useRowsWithYoY source_tables years)) =
     Some (withYoY (buildRow source_tables 2024) (Some (buildRow source_tables 2023)))"
  "prev (MaldivesTunaDashboard_headline (useRowsWithYoY source_tables years)) =
     Some (withYoY (buildRow source_tables 2023) (Some (buildRow source_tables 2022)))"
proof -
  have len: "length (useRowsWithYoY source_tables years) = 5"
    by (simp add: length_useRowsWithYoY years_def)
  then have three: "3 \<le> length (useRowsWithYoY source_tables years)"
    by simp
  show "latest (MaldivesTunaDashboard_headline (useRowsWithYoY source_tables years)) =
     Some (withYoY (buildRow source_tables 2024) (Some (buildRow source_tables 2023)))"
    using headline_rows(1) [OF three] by (simp add: len source_rows_nth)
  show "prev (MaldivesTunaDashboard_headline (useRowsWithYoY source_tables years)) =
     Some (withYoY (buildRow source_tables 2023) (Some (buildRow source_tables 2022)))"
    using headline_rows(2) [OF three] by (simp add: len source_rows_nth)
qed

text \<open>
  Claim C10. The component reads its headline row at index \<open>length - 2\<close> and the
  comparison row at index \<open>length - 3\<close>, both in range from three rows on, and computes
  \<open>priceCollapse\<close>, \<open>revenueDrop\<close>, \<open>subsidyYoY\<close>, \<open>purchasesDrop\<close> and \<open>exportsDrop\<close> from
  these two rows. For five years the rows are those of the fourth and the third year. On
  the hard-coded data they are the rows of 2024 and 2023, not the last row (2025), and
  the figures are the 2024 values and their changes against 2023.
\<close>

theorem headline_from_2024_and_2023:
  "(3 \<le> length data \<longrightarrow>
      (let h = MaldivesTunaDashboard_headline data;
           l = data ! (length data - 2); p = data ! (length data - 3)
       in latest h = Some l \<and> prev h = Some p \<and>
          priceCollapse h = yoy (coalesce_null (localPrice l)) (coalesce_null (localPrice p)) \<and>
          revenueDrop h = derive2 pctChange (revenueMvrMillions l) (revenueMvrMillions p) \<and>
          subsidyYoY h = derive2 pctChange (subsidyMvrMillions l) (subsidyMvrMillions p) \<and>
          purchasesDrop h = derive2 pctChange (purchasesKt l) (purchasesKt p) \<and>
          exportsDrop h = derive2 pctChange (exportsKt l) (exportsKt p))) \<and>
   (length ys = 5 \<longrightarrow>
      (let h = MaldivesTunaDashboard_headline (useRowsWithYoY T ys)
       in latest h = Some (useRowsWithYoY T ys ! 3) \<and>
          prev h = Some (useRowsWithYoY T ys ! 2) \<and>
          map_option year (latest h) = Some (String (ys ! 3)) \<and>
          map_option year (prev h) = Some (String (ys ! 2)))) \<and>
   (let h = MaldivesTunaDashboard_headline (useRowsWithYoY source_tables years)
    in map_option year (latest h) = Some ''2024'' \<and>
       map_option year (prev h) = Some ''2023'' \<and>
       latest h \<noteq> Some (last (useRowsWithYoY source_tables years)) \<and>
       map_option localPrice (latest h) = Some (numlit 14) \<and>
       map_option globalPrice (latest h) = Some (numlit (231 / 10)) \<and>
       map_option revenueMvrMillions (latest h) = Some (numlit (10756 / 10)) \<and>
       map_option subsidyMvrMillions (latest h) = Some (numlit (4044 / 10)) \<and>
       priceCollapse h = numlit (- 391 / 10) \<and>
       revenueDrop h = numlit (- 465 / 10) \<and>
       subsidyYoY h = numlit (618 / 10) \<and>
       purchasesDrop h = numlit (- 446 / 10) \<and>
       exportsDrop h = numlit (- 507 / 10))"
proof (intro conjI impI)
  assume three: "3 \<le> length data"
  show "let h = MaldivesTunaDashboard_headline data;
            l = data ! (length data - 2); p = data ! (length data - 3)
        in latest h = Some l \<and> prev h = Some p \<and>
           priceCollapse h = yoy (coalesce_null (localPrice l)) (coalesce_null (localPrice p)) \<and>
           revenueDrop h = derive2 pctChange (revenueMvrMillions l) (revenueMvrMillions p) \<and>
           subsidyYoY h = derive2 pctChange (subsidyMvrMillions l) (subsidyMvrMillions p) \<and>
           purchasesDrop h = derive2 pctChange (purchasesKt l) (purchasesKt p) \<and>
           exportsDrop h = derive2 pctChange (exportsKt l) (exportsKt p)"
    by (simp only: Let_def headline_figures headline_rows [OF three] field_or_null_Some
        opt_field_Some simp_thms)
next
  assume five: "length ys = 5"
  then have len: "length (useRowsWithYoY T ys) = 5"
    by (simp add: length_useRowsWithYoY)
  then have three: "3 \<le> length (useRowsWithYoY T ys)"
    by simp
  have y3: "year (useRowsWithYoY T ys ! 3) = String (ys ! 3)"
    and y2: "year (useRowsWithYoY T ys ! 2) = String (ys ! 2)"
    using five by (simp_all add: nth_useRowsWithYoY withYoY_sel buildRow_raw)
  show "let h = MaldivesTunaDashboard_headline (useRowsWithYoY T ys)
        in latest h = Some (useRowsWithYoY T ys ! 3) \<and>
           prev h = Some (useRowsWithYoY T ys ! 2) \<and>
           map_option year (latest h) = Some (String (ys ! 3)) \<and>
           map_option year (prev h) = Some (String (ys ! 2))"
    using headline_rows [OF three] by (simp add: Let_def len y3 y2)
next
  have len5: "length (useRowsWithYoY source_tables years) = 5"
    by (simp add: length_useRowsWithYoY years_def)
  then have "useRowsWithYoY source_tables years \<noteq> []"
    by auto
  then have "last (useRowsWithYoY source_tables years) = useRowsWithYoY source_tables years ! 4"
    by (simp add: last_conv_nth len5)
  moreover have "year (useRowsWithYoY source_tables years ! 4) = ''2025''"
    by (simp add: nth_useRowsWithYoY years_def withYoY_sel buildRow_raw String_def
        digits_numeral digit_char_def)
  ultimately have y5: "year (last (useRowsWithYoY source_tables years)) = ''2025''"
    by simp
  have ne: "withYoY (buildRow source_tables 2024) (Some (buildRow source_tables 2023)) \<noteq>
      last (useRowsWithYoY source_tables years)"
  proof
    assume "withYoY (buildRow source_tables 2024) (Some (buildRow source_tables 2023)) =
      last (useRowsWithYoY source_tables years)"
    then have "year (withYoY (buildRow source_tables 2024) (Some (buildRow source_tables 2023))) =
      year (last (useRowsWithYoY source_tables years))"
      by simp
    then show False
      by (simp add: y5 withYoY_sel source_row_2024)
  qed
  show "let h = MaldivesTunaDashboard_headline (useRowsWithYoY source_tables years)
    in map_option year (latest h) = Some ''2024'' \<and>
       map_option year (prev h) = Some ''2023'' \<and>
       latest h \<noteq> Some (last (useRowsWithYoY source_tables years)) \<and>
       map_option localPrice (latest h) = Some (numlit 14) \<and>
       map_option globalPrice (latest h) = Some (numlit (231 / 10)) \<and>
       map_option revenueMvrMillions (latest h) = Some (numlit (10756 / 10)) \<and>
       map_option subsidyMvrMillions (latest h) = Some (numlit (4044 / 10)) \<and>
       priceCollapse h = numlit (- 391 / 10) \<and>
       revenueDrop h = numlit (- 465 / 10) \<and>
       subsidyYoY h = numlit (618 / 10) \<and>
       purchasesDrop h = numlit (- 446 / 10) \<and>
       exportsDrop h = numlit (- 507 / 10)"
    using ne
    by (simp only: Let_def headline_figures source_headline_rows field_or_null_Some
        opt_field_Some withYoY_sel source_row_2023 source_row_2024 coalesce_null_numlit
        source_changes option.map option.inject simp_thms)
qed

theorem headline_from_2024_and_2023_witness:
  "3 \<le> length (useRowsWithYoY source_tables years) \<and>
   latest (MaldivesTunaDashboard_headline (useRowsWithYoY source_tables years)) =
     Some (useRowsWithYoY source_tables years !
       (length (useRowsWithYoY source_tables years) - 2)) \<and>
   prev (MaldivesTunaDashboard_headline (useRowsWithYoY source_tables years)) =
     Some (useRowsWithYoY source_tables years !
       (length (useRowsWithYoY source_tables years) - 3))"
proof -
  have three: "3 \<le> length (useRowsWithYoY source_tables years)"
    by (simp add: length_useRowsWithYoY years_def)
  have "3 \<le> length (useRowsWithYoY source_tables years) \<longrightarrow>
      (let h = MaldivesTunaDashboard_headline (useRowsWithYoY source_tables years);
           l = useRowsWithYoY source_tables years !
             (length (useRowsWithYoY source_tables years) - 2);
           p = useRowsWithYoY source_tables years !
             (length (useRowsWithYoY source_tables years) - 3)
       in latest h = Some l \<and> prev h = Some p \<and>
          priceCollapse h = yoy (coalesce_null (localPrice l)) (coalesce_null (localPrice p)) \<and>
          revenueDrop h = derive2 pctChange (revenueMvrMillions l) (revenueMvrMillions p) \<and>
          subsidyYoY h = derive2 pctChange (subsidyMvrMillions l) (subsidyMvrMillions p) \<and>
          purchasesDrop h = derive2 pctChange (purchasesKt l) (purchasesKt p) \<and>
          exportsDrop h = derive2 pctChange (exportsKt l) (exportsKt p))"
    by (rule headline_from_2024_and_2023
        [of "useRowsWithYoY source_tables years" years source_tables, THEN conjunct1])
  with three show ?thesis
    by (simp only: Let_def simp_thms)
qed

section \<open>The rounding error of a double\<close>

lemma blen_bounds: "0 < n \<Longrightarrow> 2 ^ (blen n - 1) \<le> n \<and> n < 2 ^ blen n"
proof (induction n rule: blen.induct)
  case (1 n)
  show ?case
  proof (cases "n div 2 = 0")
    case True
    with "1.prems" have "n = 1"
      by (simp add: div_eq_0_iff)
    then show ?thesis
      by (simp add: blen_Suc0)
  next
    case False
    then have pos: "0 < n div 2"
      by simp
    with "1.prems" "1.IH" have ih: "2 ^ (blen (n div 2) - 1) \<le> n div 2"
      "n div 2 < 2 ^ blen (n div 2)"
      by simp_all
    from pos have "blen (n div 2) \<noteq> 0"
      by (subst blen.simps) simp
    then have b: "blen (n div 2) = Suc (blen (n div 2) - 1)"
      by simp
    from "1.prems" have bn: "blen n = Suc (blen (n div 2))"
      by (subst blen.simps) simp
    have "(2::nat) ^ blen (n div 2) = 2 * 2 ^ (blen (n div 2) - 1)"
      by (subst b) simp
    with ih(1) have lo: "2 ^ blen (n div 2) \<le> n"
      by linarith
    have "n < 2 * (n div 2 + 1)"
      by presburger
    with ih(2) have hi: "n < 2 * 2 ^ blen (n div 2)"
      by linarith
    from lo hi show ?thesis
      by (simp add: bn)
  qed
qed

lemma pow2_powi: "pow2 u = 2 powi u"
  by (simp add: pow2_def power_int_def power_one_over inverse_eq_divide)

lemma pow2_pos: "0 < pow2 u"
  by (simp add: pow2_powi)

lemma pow2_add: "pow2 (u + v) = pow2 u * pow2 v"
  by (simp add: pow2_powi power_int_add)

lemma pow2_mono: "u \<le> v \<Longrightarrow> pow2 u \<le> pow2 v"
  by (simp add: pow2_powi power_int_increasing)

lemma pow2_strict_mono_rev: "pow2 u < pow2 v \<Longrightarrow> u < v"
  using pow2_mono [of v u] by (cases "u < v") simp_all

lemma pow2_nat: "pow2 (int n) = 2 ^ n"
  by (simp add: pow2_def)

lemma ilog2_bounds:
  assumes "0 < a"
  shows "pow2 (ilog2 a) \<le> a \<and> a < pow2 (ilog2 a + 1)"
proof (cases "1 \<le> a")
  case True
  define n where "n = nat \<lfloor>a\<rfloor>"
  from True have fl: "1 \<le> \<lfloor>a\<rfloor>"
    by simp
  then have rn: "real n = of_int \<lfloor>a\<rfloor>"
    by (simp add: n_def)
  from fl have n1: "0 < n"
    by (simp add: n_def)
  from rn of_int_floor_le [of a] have n2: "real n \<le> a"
    by simp
  from rn floor_correct [of a] have n3: "a < real n + 1"
    by simp
  note n = n1 n2 n3
  from blen_bounds [OF n(1)] have b: "2 ^ (blen n - 1) \<le> n" "n < 2 ^ blen n"
    by simp_all
  from n(1) have bpos: "0 < blen n"
    by (subst blen.simps) simp
  then have e: "int (blen n) - 1 = int (blen n - 1)"
    by simp
  from True have il: "ilog2 a = int (blen n - 1)"
    by (simp add: ilog2_def n_def [symmetric] e del: of_nat_diff)
  from bpos have il1: "ilog2 a + 1 = int (blen n)"
    by (simp add: il)
  from b(1) have "real (2 ^ (blen n - 1)) \<le> real n"
    by (rule of_nat_mono)
  then have "(2::real) ^ (blen n - 1) \<le> real n"
    by simp
  moreover have "pow2 (ilog2 a) = 2 ^ (blen n - 1)"
    by (simp only: il pow2_nat)
  ultimately have lo: "pow2 (ilog2 a) \<le> a"
    using n(2) by linarith
  from b(2) have "n + 1 \<le> 2 ^ blen n"
    by simp
  then have "real (n + 1) \<le> real (2 ^ blen n)"
    by (rule of_nat_mono)
  then have "real n + 1 \<le> 2 ^ blen n"
    by simp
  moreover have "pow2 (ilog2 a + 1) = 2 ^ blen n"
    by (simp only: il1 pow2_nat)
  ultimately have hi: "a < pow2 (ilog2 a + 1)"
    using n(3) by linarith
  from lo hi show ?thesis ..
next
  case False
  with assms have a1: "a < 1" "1 < 1 / a"
    by simp_all
  define k where "k = nat (\<lceil>1 / a\<rceil> - 1)"
  from a1(2) have c2: "2 \<le> \<lceil>1 / a\<rceil>"
    by linarith
  then have z: "0 \<le> \<lceil>1 / a\<rceil> - 1"
    by linarith
  have "real k = of_int (\<lceil>1 / a\<rceil> - 1)"
    unfolding k_def using z by (rule of_nat_nat)
  then have rk: "real k = of_int \<lceil>1 / a\<rceil> - 1"
    by simp
  from c2 have k1: "0 < k"
    unfolding k_def by linarith
  from rk ceiling_correct [of "1 / a"] have k2: "real k < 1 / a" and k3: "1 / a \<le> real k + 1"
    by simp_all
  note k = k1 k2 k3
  from blen_bounds [OF k(1)] have b: "2 ^ (blen k - 1) \<le> k" "k < 2 ^ blen k"
    by simp_all
  from k(1) have bpos: "0 < blen k"
    by (subst blen.simps) simp
  from False have il: "ilog2 a = - int (blen k)"
    by (simp add: ilog2_def k_def [symmetric])
  have p: "pow2 (- int (blen k)) = 1 / 2 ^ blen k"
    by (simp add: pow2_def)
  from bpos have il1: "ilog2 a + 1 = - int (blen k - 1)"
    by (simp add: il)
  have p1: "pow2 (- int (blen k - 1)) = 1 / 2 ^ (blen k - 1)"
    by (simp add: pow2_def del: of_nat_diff)
  from b(2) have "k + 1 \<le> 2 ^ blen k"
    by simp
  then have "real (k + 1) \<le> real (2 ^ blen k)"
    by (rule of_nat_mono)
  then have "real k + 1 \<le> 2 ^ blen k"
    by simp
  with k(3) have "1 / a \<le> 2 ^ blen k"
    by linarith
  with assms have "1 \<le> a * 2 ^ blen k"
    by (simp add: field_simps)
  then have lo: "pow2 (ilog2 a) \<le> a"
    by (simp add: il p field_simps)
  from b(1) have "real (2 ^ (blen k - 1)) \<le> real k"
    by (rule of_nat_mono)
  then have "(2::real) ^ (blen k - 1) \<le> real k"
    by simp
  with k(2) have "2 ^ (blen k - 1) < 1 / a"
    by linarith
  with assms have "a * 2 ^ (blen k - 1) < 1"
    by (simp add: field_simps)
  then have hi: "a < pow2 (ilog2 a + 1)"
    by (simp only: il1 p1) (simp add: field_simps)
  from lo hi show ?thesis ..
qed

lemma round_half_even_near: "\<bar>of_int (round_half_even x) - x\<bar> \<le> 1 / 2"
  unfolding round_half_even_def by (auto split: if_splits)

lemma round_half_even_nonneg: "0 \<le> x \<Longrightarrow> 0 \<le> round_half_even x"
  unfolding round_half_even_def by (auto split: if_splits)

lemma toFixed1_digits_near: "0 \<le> a \<Longrightarrow> \<bar>of_int (toFixed1_digits a) / 10 - a\<bar> \<le> 1 / 20"
  unfolding toFixed1_digits_def by linarith

lemma rnd_error:
  assumes "\<bar>r\<bar> < 2 ^ 1023"
  shows "is_finite (rnd r) \<and> \<bar>val (rnd r) - r\<bar> \<le> \<bar>r\<bar> / 2 ^ 53 + 1 / 2 ^ 1075"
proof (cases "r = 0")
  case True
  then show ?thesis
    by (simp add: rnd_def)
next
  case False
  define a where "a = \<bar>r\<bar>"
  define e where "e = ilog2 a"
  define u where "u = max (e - 52) (- 1074)"
  define m where "m = round_half_even (a / pow2 u)"
  define w where "w = of_int m * pow2 u"
  from False have apos: "0 < a"
    by (simp add: a_def)
  from ilog2_bounds [OF apos] have eb: "pow2 e \<le> a" "a < pow2 (e + 1)"
    by (simp_all add: e_def)
  have p1023: "pow2 1023 = 2 ^ 1023"
    by (simp add: pow2_def)
  from eb(1) assms have "pow2 e < pow2 1023"
    by (simp add: p1023 a_def)
  then have e1023: "e < 1023"
    by (rule pow2_strict_mono_rev)
  then have "u \<le> 970"
    by (simp add: u_def)
  then have "pow2 u \<le> pow2 970"
    by (rule pow2_mono)
  moreover have "pow2 970 = 2 ^ 970"
    by (simp add: pow2_def)
  ultimately have pu: "pow2 u \<le> 2 ^ 970"
    by simp
  have ppos: "0 < pow2 u"
    by (rule pow2_pos)
  have "of_int m * pow2 u - a = (of_int m - a / pow2 u) * pow2 u"
    using ppos by (simp add: field_simps)
  then have "\<bar>w - a\<bar> = \<bar>of_int m - a / pow2 u\<bar> * pow2 u"
    using ppos by (simp add: w_def abs_mult)
  also have "\<dots> \<le> 1 / 2 * pow2 u"
    using round_half_even_near [of "a / pow2 u"] ppos
    by (intro mult_right_mono) (simp_all add: m_def)
  finally have near: "\<bar>w - a\<bar> \<le> pow2 u / 2"
    by simp
  have half: "pow2 u / 2 \<le> a / 2 ^ 53 + 1 / 2 ^ 1075"
  proof (cases "- 1074 \<le> e - 52")
    case True
    then have "u = e + (- 52)"
      by (simp add: u_def)
    then have "pow2 u = pow2 e * pow2 (- 52)"
      by (simp only: pow2_add)
    also have "pow2 (- 52) = 1 / 2 ^ 52"
      by (simp add: pow2_def)
    finally have "pow2 u / 2 = pow2 e / 2 ^ 53"
      by simp
    also from eb(1) have "\<dots> \<le> a / 2 ^ 53"
      by (simp add: divide_right_mono)
    finally show ?thesis
      by simp
  next
    case False
    then have "u = - 1074"
      by (simp add: u_def)
    then have "pow2 u / 2 = 1 / 2 ^ 1075"
      by (simp add: pow2_def)
    with apos show ?thesis
      by simp
  qed
  from near pu assms have "w < 2 ^ 1023 + 2 ^ 970 / 2"
    unfolding a_def by linarith
  also have "\<dots> < (2::real) ^ 1024"
    by simp
  finally have noov: "\<not> 2 ^ 1024 \<le> of_int m * pow2 u"
    by (simp add: w_def)
  have r: "rnd r = rnd_pack r u m"
    using False by (simp add: rnd_def rnd_at_def m_def u_def e_def a_def)
  from noov have fin: "is_finite (rnd_pack r u m)"
    by (simp add: rnd_pack_def)
  from noov have v: "val (rnd_pack r u m) = (if 0 < r then w else - w)"
    by (simp add: rnd_pack_def w_def)
  have "\<bar>val (rnd_pack r u m) - r\<bar> = \<bar>w - a\<bar>"
    unfolding v a_def by (cases "0 < r") (simp_all add: abs_if)
  with near half fin r show ?thesis
    by (simp add: a_def)
qed

lemma fdiv_million_error:
  assumes "is_finite v" and "\<bar>val v\<bar> < 2 ^ 1024"
  shows "is_finite (fdiv v (Fin 1000000)) \<and>
    \<bar>val (fdiv v (Fin 1000000)) - val v / 1000000\<bar> \<le>
      \<bar>val v\<bar> / 1000000 / 2 ^ 53 + 1 / 2 ^ 1075"
proof (cases "is_zero v")
  case True
  with assms(1) have "val v = 0"
    by (cases v) simp_all
  with True assms(1) show ?thesis
    by (cases v) (simp_all add: fdiv_def signed_zero_def)
next
  case False
  with assms(1) have q: "fdiv v (Fin 1000000) = rnd (val v / 1000000)"
    by (cases v) (simp_all add: fdiv_def)
  have "\<bar>val v\<bar> / 1000000 \<le> \<bar>val v\<bar> / 2"
    by simp
  also from assms(2) have "\<dots> < 2 ^ 1024 / 2"
    by (simp only: divide_strict_right_mono zero_less_numeral)
  also have "\<dots> = (2::real) ^ 1023"
    by simp
  finally have "\<bar>val v / 1000000\<bar> < 2 ^ 1023"
    by simp
  from rnd_error [OF this] show ?thesis
    by (simp add: q)
qed

lemma toFixed1_error:
  assumes "is_finite x" and "\<bar>val x\<bar> < 10 ^ 21"
  shows "is_finite (toFixed1 x) \<and>
    \<bar>val (toFixed1 x) - val x\<bar> \<le> 1 / 20 + (\<bar>val x\<bar> + 1 / 20) / 2 ^ 53 + 1 / 2 ^ 1075"
proof (cases x)
  case (Fin q)
  define n where "n = toFixed1_digits \<bar>q\<bar>"
  have near: "\<bar>of_int n / 10 - \<bar>q\<bar>\<bar> \<le> 1 / 20"
    unfolding n_def by (rule toFixed1_digits_near) simp
  have n0: "0 \<le> n"
    unfolding n_def toFixed1_digits_def by simp
  from assms(2) Fin have qb: "\<bar>q\<bar> < 10 ^ 21"
    by simp
  have tf: "toFixed1 x = Number_fixed1 (q < 0) n"
    using qb by (simp add: Fin n_def)
  have "(10::real) ^ 21 + 1 < 2 ^ 1023"
    by simp
  with near qb n0 have small: "\<bar>of_int n / 10 :: real\<bar> < 2 ^ 1023"
    by linarith
  then have small': "\<bar>- (of_int n / 10) :: real\<bar> < 2 ^ 1023"
    by simp
  show ?thesis
  proof (cases "q < 0 \<and> n = 0")
    case True
    then have z: "toFixed1 x = NegZero"
      by (simp add: tf Number_fixed1_def)
    from True near have "\<bar>q\<bar> \<le> 1 / 20"
      by simp
    moreover have "0 \<le> (\<bar>q\<bar> + 1 / 20) / 2 ^ 53" and "(0::real) \<le> 1 / 2 ^ 1075"
      by simp_all
    ultimately have "\<bar>0 - q\<bar> \<le> 1 / 20 + (\<bar>q\<bar> + 1 / 20) / 2 ^ 53 + 1 / 2 ^ 1075"
      by linarith
    then show ?thesis
      unfolding z by (simp only: Fin val.simps is_finite.simps simp_thms)
  next
    case False
    define s :: real where "s = (if q < 0 then - (of_int n / 10) else of_int n / 10)"
    from False have nf: "Number_fixed1 (q < 0) n = rnd s"
      by (auto simp: Number_fixed1_def s_def)
    from small small' have "\<bar>s\<bar> < 2 ^ 1023"
      by (simp add: s_def)
    from rnd_error [OF this]
    have fin: "is_finite (rnd s)" and err: "\<bar>val (rnd s) - s\<bar> \<le> \<bar>s\<bar> / 2 ^ 53 + 1 / 2 ^ 1075"
      by simp_all
    from n0 have sabs: "\<bar>s\<bar> = of_int n / 10"
      by (simp add: s_def)
    from near have sq: "\<bar>s - q\<bar> \<le> 1 / 20"
      by (cases "q < 0") (simp_all add: s_def abs_if split: if_splits)
    from near have "of_int n / 10 \<le> \<bar>q\<bar> + 1 / 20"
      by linarith
    then have "\<bar>s\<bar> / 2 ^ 53 \<le> (\<bar>q\<bar> + 1 / 20) / 2 ^ 53"
      by (simp add: sabs divide_right_mono)
    with err sq have "\<bar>val (rnd s) - q\<bar> \<le> 1 / 20 + (\<bar>q\<bar> + 1 / 20) / 2 ^ 53 + 1 / 2 ^ 1075"
      by linarith
    with fin show ?thesis
      unfolding tf nf by (simp only: Fin val.simps simp_thms)
  qed
next
  case NegZero
  then show ?thesis
    by simp
qed (use assms in simp_all)

lemma round_trip_arith:
  fixes Q eps :: real
  assumes "0 \<le> Q" "0 \<le> eps" "eps \<le> 1 / 10 ^ 30"
  shows "1000000 *
      (1 / 20 + (Q / 1000000 + Q / 1000000 / 2 ^ 53 + eps + 1 / 20) / 2 ^ 53 + eps +
       (Q / 1000000 / 2 ^ 53 + eps)) \<le> 50000 + (Q + 50000) / 2 ^ 51"
proof -
  have a: "Q / 1000000 / 2 ^ 53 \<le> Q / 1000000"
    using assms(1) by (simp add: field_simps)
  have b: "1000000 * ((Q / 1000000 + Q / 1000000 / 2 ^ 53 + eps + 1 / 20) / 2 ^ 53) \<le>
      (2 * Q + 1000000 * eps + 50000) / 2 ^ 53"
    using a by (simp add: field_simps)
  have c: "1000000 * (Q / 1000000 / 2 ^ 53) = Q / 2 ^ 53"
    by simp
  have d: "(Q + 50000) / 2 ^ 51 = (4 * Q + 200000) / 2 ^ 53"
    by simp
  have e: "1000000 * eps / 2 ^ 53 + 2000000 * eps \<le> 150000 / 2 ^ 53"
    using assms(2,3) by (simp add: field_simps)
  have f: "(2 * Q + 1000000 * eps + 50000) / 2 ^ 53 + Q / 2 ^ 53 + 2000000 * eps \<le>
      (4 * Q + 200000) / 2 ^ 53"
    using e assms(1) by (simp add: field_simps)
  show ?thesis
    using b f by (simp only: d distrib_left c)
qed

lemma pass_through_arith:
  fixes Q eps :: real
  assumes "0 \<le> Q" "0 \<le> eps" "eps \<le> 1 / 10 ^ 30"
  shows "1000000 * (Q / 1000000 / 2 ^ 53 + eps) \<le> 50000 + (Q + 50000) / 2 ^ 51"
proof -
  have "1000000 * (Q / 1000000 / 2 ^ 53 + eps) = Q / 2 ^ 53 + 1000000 * eps"
    by simp
  also have "\<dots> \<le> Q / 2 ^ 51 + 1"
    using assms by (simp add: field_simps)
  also have "\<dots> \<le> 50000 + (Q + 50000) / 2 ^ 51"
    by (simp add: field_simps)
  finally show ?thesis .
qed

lemma toMillions_error:
  assumes "is_finite v" and "\<bar>val v\<bar> < 2 ^ 1024"
  shows "is_finite (toMillions v) \<and>
    \<bar>val (toMillions v) * 1000000 - val v\<bar> \<le> 50000 + (\<bar>val v\<bar> + 50000) / 2 ^ 51"
proof -
  define x where "x = fdiv v (Fin 1000000)"
  define Q where "Q = \<bar>val v\<bar>"
  define eps :: real where "eps = 1 / 2 ^ 1075"
  have eps: "0 \<le> eps" "eps \<le> 1 / 10 ^ 30"
    by (simp_all add: eps_def)
  have Q: "0 \<le> Q"
    by (simp add: Q_def)
  from fdiv_million_error [OF assms]
  have fx: "is_finite x" and e1: "\<bar>val x - val v / 1000000\<bar> \<le> Q / 1000000 / 2 ^ 53 + eps"
    unfolding x_def Q_def eps_def by simp_all
  have split: "\<bar>val y * 1000000 - val v\<bar> \<le>
      1000000 * (\<bar>val y - val x\<bar> + \<bar>val x - val v / 1000000\<bar>)" for y
    by (simp add: abs_if split: if_splits)
  show ?thesis
  proof (cases "\<bar>val x\<bar> < 10 ^ 21")
    case True
    from e1 Q eps have xb: "\<bar>val x\<bar> \<le> Q / 1000000 + Q / 1000000 / 2 ^ 53 + eps"
      unfolding Q_def by linarith
    from toFixed1_error [OF fx True]
    have fy: "is_finite (toFixed1 x)"
      and e2: "\<bar>val (toFixed1 x) - val x\<bar> \<le> 1 / 20 + (\<bar>val x\<bar> + 1 / 20) / 2 ^ 53 + eps"
      unfolding eps_def by simp_all
    from xb have "(\<bar>val x\<bar> + 1 / 20) / 2 ^ 53 \<le>
        (Q / 1000000 + Q / 1000000 / 2 ^ 53 + eps + 1 / 20) / 2 ^ 53"
      by (simp add: divide_right_mono)
    with e2 have e2': "\<bar>val (toFixed1 x) - val x\<bar> \<le>
        1 / 20 + (Q / 1000000 + Q / 1000000 / 2 ^ 53 + eps + 1 / 20) / 2 ^ 53 + eps"
      by linarith
    note split [of "toFixed1 x"]
    also have "1000000 * (\<bar>val (toFixed1 x) - val x\<bar> + \<bar>val x - val v / 1000000\<bar>) \<le>
        1000000 *
        (1 / 20 + (Q / 1000000 + Q / 1000000 / 2 ^ 53 + eps + 1 / 20) / 2 ^ 53 + eps +
         (Q / 1000000 / 2 ^ 53 + eps))"
      by (rule mult_left_mono [OF add_mono [OF e2' e1]]) simp
    also from Q eps have "\<dots> \<le> 50000 + (Q + 50000) / 2 ^ 51"
      by (rule round_trip_arith)
    finally show ?thesis
      using fy by (simp add: toMillions_def x_def Q_def)
  next
    case False
    with fx have same: "toFixed1 x = x"
      by (cases x) simp_all
    from split [of x] have "\<bar>val x * 1000000 - val v\<bar> \<le>
        1000000 * \<bar>val x - val v / 1000000\<bar>"
      by simp
    also have "\<dots> \<le> 1000000 * (Q / 1000000 / 2 ^ 53 + eps)"
      by (rule mult_left_mono [OF e1]) simp
    also from Q eps have "\<dots> \<le> 50000 + (Q + 50000) / 2 ^ 51"
      by (rule pass_through_arith)
    finally show ?thesis
      using fx by (simp add: toMillions_def x_def [symmetric] same Q_def)
  qed
qed

lemma rnd_bound:
  assumes "\<bar>r\<bar> < 2 ^ 1023"
  shows "is_finite (rnd r) \<and> \<bar>val (rnd r)\<bar> \<le> 2 * \<bar>r\<bar> + 1"
proof -
  from rnd_error [OF assms]
  have fin: "is_finite (rnd r)" and err: "\<bar>val (rnd r) - r\<bar> \<le> \<bar>r\<bar> / 2 ^ 53 + 1 / 2 ^ 1075"
    by simp_all
  have "\<bar>r\<bar> / 2 ^ 53 \<le> \<bar>r\<bar>"
    by (simp add: field_simps)
  moreover have "(1::real) / 2 ^ 1075 \<le> 1"
    by simp
  ultimately have "\<bar>val (rnd r)\<bar> \<le> 2 * \<bar>r\<bar> + 1"
    using err by linarith
  with fin show ?thesis ..
qed

lemma fsub_finite:
  assumes "is_finite x" and "is_finite y" and "\<bar>val x - val y\<bar> < 2 ^ 1023"
  shows "is_finite (fsub x y) \<and> \<bar>val (fsub x y)\<bar> \<le> 2 * \<bar>val x - val y\<bar> + 1"
proof (cases "val x - val y = 0")
  case True
  with assms(1,2) show ?thesis
    by (cases x; cases y) (simp_all add: fsub_def)
next
  case False
  with assms(1,2) have "fsub x y = rnd (val x - val y)"
    by (cases x; cases y) (simp_all add: fsub_def)
  with rnd_bound [OF assms(3)] show ?thesis
    by simp
qed

lemma fdiv_finite:
  assumes "is_finite x" and "is_finite y" and "\<not> is_zero y" and "\<bar>val x / val y\<bar> < 2 ^ 1023"
  shows "is_finite (fdiv x y) \<and> \<bar>val (fdiv x y)\<bar> \<le> 2 * \<bar>val x / val y\<bar> + 1"
proof (cases "is_zero x")
  case True
  with assms(1,2,3) show ?thesis
    by (cases x; cases y) (simp_all add: fdiv_def signed_zero_def)
next
  case False
  with assms(1,2,3) have "fdiv x y = rnd (val x / val y)"
    by (cases x; cases y) (simp_all add: fdiv_def)
  with rnd_bound [OF assms(4)] show ?thesis
    by simp
qed

lemma fmul_finite:
  assumes "is_finite x" and "is_finite y" and "\<bar>val x * val y\<bar> < 2 ^ 1023"
  shows "is_finite (fmul x y) \<and> \<bar>val (fmul x y)\<bar> \<le> 2 * \<bar>val x * val y\<bar> + 1"
proof (cases "val x * val y = 0")
  case True
  with assms(1,2) show ?thesis
    by (cases x; cases y) (simp_all add: fmul_def signed_zero_def)
next
  case False
  with assms(1,2) have "fmul x y = rnd (val x * val y)"
    by (cases x; cases y) (simp_all add: fmul_def)
  with rnd_bound [OF assms(3)] show ?thesis
    by simp
qed

lemma toFixed1_finite:
  assumes "is_finite x"
  shows "is_finite (toFixed1 x)"
proof (cases "\<bar>val x\<bar> < 10 ^ 21")
  case True
  with toFixed1_error [OF assms] show ?thesis
    by simp
next
  case False
  with assms show ?thesis
    by (cases x) simp_all
qed

lemma pctChange_finite:
  assumes "is_finite c" and "is_finite q" and "\<bar>val c\<bar> \<le> 10 ^ 150"
    and "1 / 10 ^ 150 \<le> \<bar>val q\<bar>" and "\<bar>val q\<bar> \<le> 10 ^ 150"
  shows "\<not> is_zero q \<and> is_finite (pctChange c q)"
proof -
  define P :: real where "P = 10 ^ 150"
  define R :: real where "R = 10 ^ 300"
  define S :: real where "S = 10 ^ 302"
  define T :: real where "T = 10 ^ 304"
  define M :: real where "M = 2 ^ 1023"
  have num: "1 \<le> P" "2 * P < M" "0 \<le> R" "5 * R < M" "10 * R + 1 \<le> S" "T < M"
    by (simp_all add: P_def R_def S_def T_def M_def)
  have qpos: "0 < \<bar>val q\<bar>"
    using assms(4) by (rule less_le_trans [rotated]) simp
  with assms(2) have nz: "\<not> is_zero q"
    by (cases q) simp_all
  from assms(3,5) have "\<bar>val c\<bar> \<le> P" "\<bar>val q\<bar> \<le> P"
    by (simp_all add: P_def)
  then have "\<bar>val c - val q\<bar> \<le> 2 * P"
    by linarith
  then have d1: "\<bar>val c - val q\<bar> < M" and d0: "2 * \<bar>val c - val q\<bar> + 1 \<le> 5 * P"
    using num(1,2) by simp_all
  from d1 have "\<bar>val c - val q\<bar> < 2 ^ 1023"
    by (simp add: M_def)
  from fsub_finite [OF assms(1,2) this] d0
  have fd: "is_finite (fsub c q)" and bd: "\<bar>val (fsub c q)\<bar> \<le> 5 * P"
    by linarith+
  from bd have bd': "\<bar>val (fsub c q)\<bar> \<le> 5 * 10 ^ 150"
    by (simp add: P_def)
  have "\<bar>val (fsub c q)\<bar> / \<bar>val q\<bar> \<le> 5 * 10 ^ 150 / (1 / 10 ^ 150)"
    using bd' assms(4) by (intro frac_le) simp_all
  then have qb: "\<bar>val (fsub c q) / val q\<bar> \<le> 5 * R"
    by (simp add: R_def)
  then have e1: "\<bar>val (fsub c q) / val q\<bar> < M"
    and e0: "2 * \<bar>val (fsub c q) / val q\<bar> + 1 \<le> S"
    using num(3,4,5) by simp_all
  from e1 have "\<bar>val (fsub c q) / val q\<bar> < 2 ^ 1023"
    by (simp add: M_def)
  from fdiv_finite [OF fd assms(2) nz this] e0
  have fe: "is_finite (fdiv (fsub c q) q)" and be: "\<bar>val (fdiv (fsub c q) q)\<bar> \<le> S"
    by linarith+
  have "\<bar>val (fdiv (fsub c q) q) * val (Fin 100)\<bar> = 100 * \<bar>val (fdiv (fsub c q) q)\<bar>"
    by (simp add: abs_mult)
  also from be have "\<dots> \<le> 100 * S"
    by simp
  also have "\<dots> = T"
    by (simp add: S_def T_def)
  finally have "\<bar>val (fdiv (fsub c q) q) * val (Fin 100)\<bar> < M"
    using num by linarith
  then have "\<bar>val (fdiv (fsub c q) q) * val (Fin 100)\<bar> < 2 ^ 1023"
    by (simp only: M_def)
  from fmul_finite [OF fe _ this] have "is_finite (pctChange c q)"
    by (simp add: pctChange_def)
  with nz show ?thesis ..
qed

section \<open>The zero guard of \<open>yoy\<close>\<close>

lemma rnd_not_NaN: "rnd r \<noteq> NaN"
  by (simp add: rnd_def rnd_at_def rnd_pack_def)

lemma fsub_not_NaN: "is_finite x \<Longrightarrow> is_finite y \<Longrightarrow> fsub x y \<noteq> NaN"
  by (cases x; cases y) (simp_all add: fsub_def rnd_not_NaN)

lemma fdiv_not_NaN: "x \<noteq> NaN \<Longrightarrow> is_finite p \<Longrightarrow> \<not> is_zero p \<Longrightarrow> fdiv x p \<noteq> NaN"
  by (cases x; cases p) (simp_all add: fdiv_def rnd_not_NaN signed_zero_def signed_inf_def)

lemma fmul_100_not_NaN: "x \<noteq> NaN \<Longrightarrow> fmul x (Fin 100) \<noteq> NaN"
  by (cases x) (simp_all add: fmul_def rnd_not_NaN signed_zero_def signed_inf_def)

lemma toFixed1_not_NaN: "x \<noteq> NaN \<Longrightarrow> toFixed1 x \<noteq> NaN"
  by (cases x) (simp_all add: Number_fixed1_def rnd_not_NaN)

lemma yoy_overflow: "yoy (Num (Fin (2 ^ 1023))) (Num (Fin (1 / 2))) = Num PosInf"
  by (simp add: num_eval)

text \<open>
  Claim C3 (amended). If the previous value is a zero, of either sign, \<open>yoy\<close> returns
  \<open>null\<close>, whatever the current value. Whenever \<open>yoy\<close> returns a number, both operands
  were numbers and the divisor was not zero, so \<open>yoy\<close> never divides by zero. On finite
  operands the result is never NaN, and on finite operands of magnitude at most
  \<open>10 ^ 150\<close>, the previous one of magnitude at least \<open>10 ^ - 150\<close>, the result is a
  finite number.
\<close>

theorem yoy_zero_guard:
  "(is_zero p \<longrightarrow> yoy cur (Num p) = Null) \<and>
   (yoy cur prv = Num r \<longrightarrow>
      (\<exists>c q. cur = Num c \<and> prv = Num q \<and> \<not> is_zero q \<and> r = toFixed1 (pctChange c q))) \<and>
   (is_finite c \<and> is_finite q \<longrightarrow> yoy (Num c) (Num q) \<noteq> Num NaN) \<and>
   (is_finite c \<and> is_finite q \<and> \<bar>val c\<bar> \<le> 10 ^ 150 \<and>
    1 / 10 ^ 150 \<le> \<bar>val q\<bar> \<and> \<bar>val q\<bar> \<le> 10 ^ 150 \<longrightarrow>
      (\<exists>r. yoy (Num c) (Num q) = Num r \<and> is_finite r))"
proof (intro conjI impI)
  assume "is_zero p"
  then show "yoy cur (Num p) = Null"
    by (cases cur) simp_all
next
  assume "yoy cur prv = Num r"
  then show "\<exists>c q. cur = Num c \<and> prv = Num q \<and> \<not> is_zero q \<and> r = toFixed1 (pctChange c q)"
    by (cases cur; cases prv) (auto split: if_splits)
next
  assume fin: "is_finite c \<and> is_finite q"
  show "yoy (Num c) (Num q) \<noteq> Num NaN"
  proof (cases "is_zero q")
    case True
    then show ?thesis by simp
  next
    case False
    from fin have "fsub c q \<noteq> NaN"
      by (simp add: fsub_not_NaN)
    with fin False have "fdiv (fsub c q) q \<noteq> NaN"
      by (simp add: fdiv_not_NaN)
    then have "pctChange c q \<noteq> NaN"
      by (simp add: pctChange_def fmul_100_not_NaN)
    then have "toFixed1 (pctChange c q) \<noteq> NaN"
      by (rule toFixed1_not_NaN)
    with False show ?thesis by simp
  qed
next
  assume "is_finite c \<and> is_finite q \<and> \<bar>val c\<bar> \<le> 10 ^ 150 \<and>
    1 / 10 ^ 150 \<le> \<bar>val q\<bar> \<and> \<bar>val q\<bar> \<le> 10 ^ 150"
  then have "\<not> is_zero q \<and> is_finite (pctChange c q)"
    by (intro pctChange_finite) simp_all
  then have "yoy (Num c) (Num q) = Num (toFixed1 (pctChange c q))"
    and "is_finite (toFixed1 (pctChange c q))"
    by (simp_all add: toFixed1_finite)
  then show "\<exists>r. yoy (Num c) (Num q) = Num r \<and> is_finite r"
    by blast
qed

theorem yoy_zero_guard_witness:
  "is_zero NegZero \<and> yoy (numlit 14) (Num NegZero) = Null \<and>
   yoy (numlit 14) (numlit 23) = numlit (- 391 / 10) \<and>
   (\<exists>c q. numlit 14 = Num c \<and> numlit 23 = Num q \<and> \<not> is_zero q \<and>
      rnd (- 391 / 10) = toFixed1 (pctChange c q)) \<and>
   is_finite (Fin 14) \<and> is_finite (Fin 23) \<and> \<bar>val (Fin 14)\<bar> \<le> 10 ^ 150 \<and>
   1 / 10 ^ 150 \<le> \<bar>val (Fin 23)\<bar> \<and> \<bar>val (Fin 23)\<bar> \<le> 10 ^ 150 \<and>
   yoy (Num (Fin 14)) (Num (Fin 23)) \<noteq> Num NaN \<and>
   (\<exists>r. yoy (Num (Fin 14)) (Num (Fin 23)) = Num r \<and> is_finite r)"
proof -
  have val: "yoy (numlit 14) (numlit 23) = Num (rnd (- 391 / 10))"
    by (simp only: source_changes numlit_def [of "- 391 / 10"])
  have range: "is_finite (Fin 14) \<and> is_finite (Fin 23) \<and> \<bar>val (Fin 14)\<bar> \<le> 10 ^ 150 \<and>
    1 / 10 ^ 150 \<le> \<bar>val (Fin 23)\<bar> \<and> \<bar>val (Fin 23)\<bar> \<le> 10 ^ 150"
    by simp
  note g = yoy_zero_guard
    [of NegZero "numlit 14" "numlit 23" "rnd (- 391 / 10)" "Fin 14" "Fin 23"]
  from g have a: "yoy (numlit 14) (Num NegZero) = Null"
    by simp
  from g val have b: "\<exists>c q. numlit 14 = Num c \<and> numlit 23 = Num q \<and> \<not> is_zero q \<and>
      rnd (- 391 / 10) = toFixed1 (pctChange c q)"
    by blast
  from g have c: "yoy (Num (Fin 14)) (Num (Fin 23)) \<noteq> Num NaN"
    by simp
  from g range have d: "\<exists>r. yoy (Num (Fin 14)) (Num (Fin 23)) = Num r \<and> is_finite r"
    by blast
  from a b c d range show ?thesis
    by (simp only: source_changes is_zero.simps simp_thms)
qed

text \<open>
  The claim as stated excludes every infinite result; the guard tests the divisor
  only, and the double arithmetic overflows on finite operands: for the current value
  \<open>2 ^ 1023\<close> and the previous value \<open>0.5\<close> the difference is \<open>2 ^ 1023\<close> after rounding and
  the quotient \<open>2 ^ 1024\<close> is beyond the largest double.
\<close>

theorem yoy_zero_guard_counterexample:
  "\<not> is_zero (Fin (1 / 2)) \<and> is_finite (Fin (2 ^ 1023)) \<and> is_finite (Fin (1 / 2)) \<and>
   yoy (Num (Fin (2 ^ 1023))) (Num (Fin (1 / 2))) = Num PosInf"
  using yoy_overflow by simp

section \<open>Scaling to millions\<close>

lemma toMillions_8250000:
  "toMillions (Fin 8250000) = Fin (2336242306698445 / 281474976710656)"
  "fmul (toMillions (Fin 8250000)) (Fin 1000000) = Fin (8912057139200001 / 1073741824)"
  "fsub (fmul (toMillions (Fin 8250000)) (Fin 1000000)) (Fin 8250000) =
     Fin (53687091200001 / 1073741824)"
  by (simp_all add: toMillions_def num_eval)

text \<open>
  Claim C7 (amended). For every finite double \<open>v\<close> (a finite value of magnitude below
  \<open>2 ^ 1024\<close>), the scaling to millions returns a finite number, and scaling it back by
  \<open>1_000_000\<close> (in exact arithmetic) reproduces \<open>v\<close> within the one-decimal rounding
  tolerance of 50,000 plus the rounding error of the doubles, which is at most
  \<open>(\<bar>v\<bar> + 50000) / 2 ^ 51\<close>.
\<close>

theorem toMillions_round_trip:
  assumes "is_finite v" and "\<bar>val v\<bar> < 2 ^ 1024"
  shows "is_finite (toMillions v) \<and>
    \<bar>val (toMillions v) * 1000000 - val v\<bar> \<le> 50000 + (\<bar>val v\<bar> + 50000) / 2 ^ 51"
  using assms by (rule toMillions_error)

theorem toMillions_round_trip_witness:
  "is_finite (Fin 8250000) \<and> \<bar>val (Fin 8250000)\<bar> < 2 ^ 1024 \<and>
   is_finite (toMillions (Fin 8250000)) \<and>
   \<bar>val (toMillions (Fin 8250000)) * 1000000 - 8250000\<bar> \<le> 50000 + 8300000 / 2 ^ 51"
proof -
  have a: "is_finite (Fin 8250000)"
    by simp
  have b: "\<bar>val (Fin 8250000)\<bar> < 2 ^ 1024"
    by simp
  from toMillions_round_trip [OF a b] show ?thesis
    by simp
qed

text \<open>
  The claim as stated compares with \<open>v\<close> itself and allows no rounding of the doubles:
  for \<open>v = 8_250_000\<close> the quotient is \<open>8.25\<close> exactly, \<open>toFixed(1)\<close> prints \<open>8.3\<close>, and the
  double nearest to \<open>8.3\<close> is slightly above it, so that the value scaled back exceeds
  \<open>v\<close> by more than 50,000, both in exact arithmetic and in double arithmetic
  (\<open>8300000.000000001 - 8250000 = 50000.00000000093\<close>).
\<close>

theorem toMillions_round_trip_counterexample:
  "\<not> \<bar>val (toMillions (Fin 8250000)) * 1000000 - 8250000\<bar> \<le> 50000 \<and>
   \<not> \<bar>val (fsub (fmul (toMillions (Fin 8250000)) (Fin 1000000)) (Fin 8250000))\<bar> \<le> 50000"
proof
  have "val (toMillions (Fin 8250000)) = 2336242306698445 / 281474976710656"
    by (simp only: toMillions_8250000(1) val.simps)
  then show "\<not> \<bar>val (toMillions (Fin 8250000)) * 1000000 - 8250000\<bar> \<le> 50000"
    by simp
  have "val (fsub (fmul (toMillions (Fin 8250000)) (Fin 1000000)) (Fin 8250000)) =
      53687091200001 / 1073741824"
    by (simp only: toMillions_8250000(3) val.simps)
  then show
    "\<not> \<bar>val (fsub (fmul (toMillions (Fin 8250000)) (Fin 1000000)) (Fin 8250000))\<bar> \<le> 50000"
    by simp
qed

end
